theory Spec2Isabelle
  imports Complex_Main "HOL-Library.AList" "HOL-Library.Multiset"
begin

section \<open>Instants and calendar days\<close>

text \<open>
  A JavaScript \<open>Date\<close> (and a dayjs object) holds an instant: the number of milliseconds
  since the epoch, an integer. Local time is modelled with one constant offset \<open>tz\<close> from
  UTC, in milliseconds (local = UTC + \<open>tz\<close>); a zone that changes its offset during the
  period under study is outside this model. Every operation below reads the clock once:
  the instant \<open>now\<close> is a parameter.
\<close>

definition MS_PER_HOUR :: int where
  "MS_PER_HOUR = 1000 * 60 * 60"

definition MS_PER_DAY :: int where
  "MS_PER_DAY = 1000 * 60 * 60 * 24"

definition calendarDay :: "int \<Rightarrow> int \<Rightarrow> int" where
  \<comment> \<open>the number of the local calendar day an instant falls on\<close>
  "calendarDay tz t = (t + tz) div MS_PER_DAY"

definition setHours0 :: "int \<Rightarrow> int \<Rightarrow> int" where
  \<comment> \<open>\<open>d.setHours(0, 0, 0, 0)\<close>, also \<open>startOf('day')\<close>: local midnight of the day of \<open>t\<close>\<close>
  "setHours0 tz t = calendarDay tz t * MS_PER_DAY - tz"

definition hour_of :: "int \<Rightarrow> int \<Rightarrow> nat" where
  \<comment> \<open>\<open>dayjs(t).hour()\<close>: 0..23\<close>
  "hour_of tz t = nat (((t + tz) div MS_PER_HOUR) mod 24)"

definition day_of :: "int \<Rightarrow> int \<Rightarrow> nat" where
  \<comment> \<open>\<open>dayjs(t).day()\<close>: 0 (Sunday) .. 6; 1970-01-01 was a Thursday\<close>
  "day_of tz t = nat ((calendarDay tz t + 4) mod 7)"

section \<open>The streak record (models/streak.model.js)\<close>

text \<open>
  The fields of the Mongoose schema that the operations below read or write. The record
  is keyed by its user in the collection (unique index), so \<open>userId\<close> is the key of the
  map that models the collection. Streak counters are JavaScript numbers that only ever hold
  integers; experience points are only ever increased by the constants of the code
  (10 per log, the catalog's rewards), all naturals.
\<close>

record streak =
  currentStreak :: int
  longestStreak :: int
  lastActiveDate :: "int option"
  totalXP :: nat
  level :: int
  totalLogsCount :: int
  totalMoneySaved :: real

definition Streak_defaults :: streak where
  \<comment> \<open>the schema's defaults, what \<open>Streak.create({ userId })\<close> stores\<close>
  "Streak_defaults = \<lparr> currentStreak = 0, longestStreak = 0, lastActiveDate = None,
     totalXP = 0, level = 1, totalLogsCount = 0, totalMoneySaved = 0 \<rparr>"

definition calculateLevel :: "streak \<Rightarrow> streak" where
  \<comment> \<open>\<open>this.level = Math.floor(Math.sqrt(this.totalXP / 100)) + 1\<close>\<close>
  "calculateLevel s = s\<lparr> level := \<lfloor>sqrt (real (totalXP s) / 100)\<rfloor> + 1 \<rparr>"

definition xpForNextLevel :: "streak \<Rightarrow> int" where
  \<comment> \<open>\<open>nextLevel = this.level + 1; return Math.pow(nextLevel - 1, 2) * 100\<close>\<close>
  "xpForNextLevel s = (let nextLevel = level s + 1 in (nextLevel - 1) ^ 2 * 100)"

definition addXP :: "nat \<Rightarrow> streak \<Rightarrow> streak" where
  \<comment> \<open>\<open>this.totalXP += amount; this.calculateLevel(); await this.save()\<close>\<close>
  "addXP amount s = calculateLevel (s\<lparr> totalXP := totalXP s + amount \<rparr>)"

definition updateStreak :: "int \<Rightarrow> int \<Rightarrow> bool \<Rightarrow> streak \<Rightarrow> streak" where
  "updateStreak tz now didLog s =
     (let today = setHours0 tz now;
          lastActive = map_option (setHours0 tz) (lastActiveDate s);
          cur = (case lastActive of
                   None \<Rightarrow> (if didLog then 1 else 0)
                 | Some la \<Rightarrow>
                     (let diffDays = (today - la) div MS_PER_DAY in
                      if diffDays = 0 then currentStreak s
                      else if diffDays = 1 \<and> didLog then currentStreak s + 1
                      else (if didLog then 1 else 0)));
          lng = (if cur > longestStreak s then cur else longestStreak s)
      in s\<lparr> currentStreak := cur, longestStreak := lng, lastActiveDate := Some today \<rparr>)"

section \<open>Errors\<close>

text \<open>
  What a JavaScript \<open>throw\<close> (a rejected promise) carries, for the failures the modelled
  code can meet: an identifier that no scope binds, a document that Mongoose refuses to
  validate, and an error of the MongoDB server with its numeric code (11000 is a
  duplicate key of a unique index).
\<close>

datatype js_error =
    ReferenceError string
  | ValidationError string
  | MongoServerError nat

definition and_then :: "'e + 'a \<Rightarrow> ('a \<Rightarrow> 'e + 'b) \<Rightarrow> 'e + 'b" where
  \<comment> \<open>\<open>await\<close> a step and go on; an error ends the function\<close>
  "and_then r f = (case r of Inl e \<Rightarrow> Inl e | Inr v \<Rightarrow> f v)"

section \<open>Achievements (models/achievement.model.js)\<close>

type_synonym userId = string

record achievement =
  ach_id :: string
  ach_name :: string
  xp :: nat
  category :: string

definition FIRST_DAY :: achievement where
  "FIRST_DAY = \<lparr> ach_id = ''first_day'', ach_name = ''First Step'', xp = 50, category = ''streak'' \<rparr>"

definition WEEK_WARRIOR :: achievement where
  "WEEK_WARRIOR = \<lparr> ach_id = ''week_warrior'', ach_name = ''Week Warrior'', xp = 200, category = ''streak'' \<rparr>"

definition MONTH_MASTER :: achievement where
  "MONTH_MASTER = \<lparr> ach_id = ''month_master'', ach_name = ''Month Master'', xp = 1000, category = ''streak'' \<rparr>"

definition FIRST_REDUCTION :: achievement where
  "FIRST_REDUCTION = \<lparr> ach_id = ''first_reduction'', ach_name = ''On The Way Down'', xp = 100, category = ''reduction'' \<rparr>"

definition HALF_WAY :: achievement where
  "HALF_WAY = \<lparr> ach_id = ''half_way'', ach_name = ''Halfway There'', xp = 500, category = ''reduction'' \<rparr>"

definition SMOKE_FREE_DAY :: achievement where
  "SMOKE_FREE_DAY = \<lparr> ach_id = ''smoke_free_day'', ach_name = ''Clean Day'', xp = 300, category = ''reduction'' \<rparr>"

definition LOGGER_10 :: achievement where
  "LOGGER_10 = \<lparr> ach_id = ''logger_10'', ach_name = ''Dedicated Logger'', xp = 50, category = ''consistency'' \<rparr>"

definition LOGGER_50 :: achievement where
  "LOGGER_50 = \<lparr> ach_id = ''logger_50'', ach_name = ''Data Champion'', xp = 150, category = ''consistency'' \<rparr>"

definition LOGGER_100 :: achievement where
  "LOGGER_100 = \<lparr> ach_id = ''logger_100'', ach_name = ''Tracking Master'', xp = 300, category = ''consistency'' \<rparr>"

definition INSIGHT_SEEKER :: achievement where
  "INSIGHT_SEEKER = \<lparr> ach_id = ''insight_seeker'', ach_name = ''Insight Seeker'', xp = 75, category = ''wellness'' \<rparr>"

definition COACH_FOLLOWER :: achievement where
  "COACH_FOLLOWER = \<lparr> ach_id = ''coach_follower'', ach_name = ''Coach Follower'', xp = 100, category = ''wellness'' \<rparr>"

definition MORNING_DELAY :: achievement where
  "MORNING_DELAY = \<lparr> ach_id = ''morning_delay'', ach_name = ''Morning Victory'', xp = 150, category = ''wellness'' \<rparr>"

definition SAVER_10 :: achievement where
  "SAVER_10 = \<lparr> ach_id = ''saver_10'', ach_name = ''Smart Saver'', xp = 100, category = ''money'' \<rparr>"

definition SAVER_50 :: achievement where
  "SAVER_50 = \<lparr> ach_id = ''saver_50'', ach_name = ''Budget Boss'', xp = 250, category = ''money'' \<rparr>"

definition SAVER_100 :: achievement where
  "SAVER_100 = \<lparr> ach_id = ''saver_100'', ach_name = ''Money Master'', xp = 500, category = ''money'' \<rparr>"

definition ACHIEVEMENTS_values :: "achievement list" where
  \<comment> \<open>\<open>Object.values(ACHIEVEMENTS)\<close>, in the order of the object literal\<close>
  "ACHIEVEMENTS_values =
     [FIRST_DAY, WEEK_WARRIOR, MONTH_MASTER, FIRST_REDUCTION, HALF_WAY, SMOKE_FREE_DAY,
      LOGGER_10, LOGGER_50, LOGGER_100, INSIGHT_SEEKER, COACH_FOLLOWER, MORNING_DELAY,
      SAVER_10, SAVER_50, SAVER_100]"

text \<open>
  The \<open>UserAchievement\<close> collection: its documents in insertion order, each the pair
  \<open>(userId, achievementId)\<close> (the timestamps are not modelled). \<open>create\<close> validates
  \<open>achievementId\<close> against the schema's enum (the catalog's ids) before the write, and the
  unique compound index rejects a second document for the same pair with code 11000.
\<close>

type_synonym user_achievements = "(userId \<times> string) list"

definition UserAchievement_findOne :: "user_achievements \<Rightarrow> userId \<Rightarrow> string \<Rightarrow> (userId \<times> string) option" where
  "UserAchievement_findOne ua uid aid = find (\<lambda>d. d = (uid, aid)) ua"

definition UserAchievement_create :: "user_achievements \<Rightarrow> userId \<Rightarrow> string \<Rightarrow> js_error + user_achievements" where
  "UserAchievement_create ua uid aid =
     (if aid \<notin> set (map ach_id ACHIEVEMENTS_values) then Inl (ValidationError ''achievementId'')
      else if (uid, aid) \<in> set ua then Inl (MongoServerError 11000)
      else Inr (ua @ [(uid, aid)]))"

section \<open>The gamification service (services/gamification.service.js)\<close>

text \<open>
  A document held by the caller is mutated in place by the callee; the model passes the
  streak in and returns it updated. \<open>unlockAchievement\<close> takes the streak as an optional
  value, as its guard \<open>achievement && streak\<close> allows a caller to pass none.
\<close>

definition unlockAchievement ::
  "userId \<Rightarrow> string \<Rightarrow> streak option \<Rightarrow> user_achievements
     \<Rightarrow> js_error + (bool \<times> streak option \<times> user_achievements)" where
  "unlockAchievement uid achievementId strk ua =
     (case UserAchievement_findOne ua uid achievementId of
        Some existing \<Rightarrow> Inr (False, strk, ua)
      | None \<Rightarrow>
          (case UserAchievement_create ua uid achievementId of
             Inl e \<Rightarrow> (if e = MongoServerError 11000 then Inr (False, strk, ua) else Inl e)
           | Inr ua' \<Rightarrow>
               (case (find (\<lambda>a. ach_id a = achievementId) ACHIEVEMENTS_values, strk) of
                  (Some a, Some s) \<Rightarrow> Inr (True, Some (addXP (xp a) s), ua')
                | _ \<Rightarrow> Inr (True, strk, ua'))))"

type_synonym check_state = "streak \<times> user_achievements \<times> achievement list"

definition check_step ::
  "userId \<Rightarrow> (streak \<Rightarrow> bool) \<Rightarrow> string \<Rightarrow> achievement \<Rightarrow> check_state \<Rightarrow> js_error + check_state" where
  \<comment> \<open>one block of \<open>checkAchievements\<close>:
      \<open>if (cond) { const unlocked = await unlockAchievement(userId, id, streak);
        if (unlocked) newAchievements.push(ACH); }\<close>\<close>
  "check_step uid cond aid ach st =
     (case st of (s, ua, newAchievements) \<Rightarrow>
        if cond s then
          and_then (unlockAchievement uid aid (Some s) ua)
            (\<lambda>(unlocked, strk', ua').
               Inr (case strk' of Some s' \<Rightarrow> s' | None \<Rightarrow> s, ua',
                    if unlocked then newAchievements @ [ach] else newAchievements))
        else Inr st)"

definition checkAchievements :: "userId \<Rightarrow> streak \<Rightarrow> user_achievements \<Rightarrow> js_error + check_state" where
  "checkAchievements uid strk ua =
     and_then (check_step uid (\<lambda>s. currentStreak s \<ge> 1) ''first_day'' FIRST_DAY (strk, ua, [])) (\<lambda>st.
     and_then (check_step uid (\<lambda>s. currentStreak s \<ge> 7) ''week_warrior'' WEEK_WARRIOR st) (\<lambda>st.
     and_then (check_step uid (\<lambda>s. currentStreak s \<ge> 30) ''month_master'' MONTH_MASTER st) (\<lambda>st.
     and_then (check_step uid (\<lambda>s. totalLogsCount s \<ge> 10) ''logger_10'' LOGGER_10 st) (\<lambda>st.
     and_then (check_step uid (\<lambda>s. totalLogsCount s \<ge> 50) ''logger_50'' LOGGER_50 st) (\<lambda>st.
     and_then (check_step uid (\<lambda>s. totalLogsCount s \<ge> 100) ''logger_100'' LOGGER_100 st) (\<lambda>st.
     and_then (check_step uid (\<lambda>s. totalMoneySaved s \<ge> 10) ''saver_10'' SAVER_10 st) (\<lambda>st.
     and_then (check_step uid (\<lambda>s. totalMoneySaved s \<ge> 50) ''saver_50'' SAVER_50 st) (\<lambda>st.
     and_then (check_step uid (\<lambda>s. totalMoneySaved s \<ge> 100) ''saver_100'' SAVER_100 st) (\<lambda>st.
     Inr st)))))))))"



text \<open>
  The \<open>Streak\<close> collection is a map from the user to the one record of that user (the
  schema's unique index on \<open>userId\<close>).
\<close>

type_synonym streaks = "userId \<rightharpoonup> streak"

definition getOrCreateStreakFixed :: "streaks \<Rightarrow> userId \<Rightarrow> streak \<times> streaks" where
  "getOrCreateStreakFixed coll uid =
     (case coll uid of
        Some s \<Rightarrow> (s, coll)
      | None \<Rightarrow> (Streak_defaults, coll(uid \<mapsto> Streak_defaults)))"

text \<open>
  Evaluating an identifier looks it up in the scopes around it and throws a
  \<open>ReferenceError\<close> when none binds it. The body of \<open>getOrCreateStreak\<close> sees its
  parameter \<open>userId\<close>, the constants and functions the module declares and the names of
  Node's module wrapper; no global of the runtime is called \<open>odId\<close>. Only a parameter
  holds a value of the caller. Had \<open>odId\<close> a value, the query on a field that no
  document has would find nothing, and \<open>create\<close> would refuse a document without the
  required \<open>userId\<close>.
\<close>

datatype 'v binding = Parameter 'v | Module_level

definition module_scope :: "string list" where
  "module_scope =
     [''Streak'', ''UserAchievement'', ''ACHIEVEMENTS'', ''Intake'', ''logger'', ''dayjs'',
      ''getOrCreateStreak'', ''getOrCreateStreakFixed'', ''updateStreakOnLog'',
      ''checkAchievements'', ''unlockAchievement'', ''getUserStats'', ''getLeaderboard'',
      ''setBaseline'', ''getReductionProgress'',
      ''exports'', ''require'', ''module'', ''__filename'', ''__dirname'']"

definition function_scope :: "(string \<times> 'v) list \<Rightarrow> (string \<times> 'v binding) list" where
  \<comment> \<open>the parameters of a function of the module first, then the module's names\<close>
  "function_scope params =
     map (\<lambda>(x, v). (x, Parameter v)) params @ map (\<lambda>x. (x, Module_level)) module_scope"

definition lookup_identifier :: "(string \<times> 'v binding) list \<Rightarrow> string \<Rightarrow> js_error + 'v binding" where
  "lookup_identifier scope x =
     (case map_of scope x of None \<Rightarrow> Inl (ReferenceError x) | Some v \<Rightarrow> Inr v)"

definition getOrCreateStreak :: "streaks \<Rightarrow> userId \<Rightarrow> js_error + (streak \<times> streaks)" where
  "getOrCreateStreak coll uid =
     and_then (lookup_identifier (function_scope [(''userId'', uid)]) ''odId'')
       (\<lambda>odId. Inl (ValidationError ''userId''))"

record db =
  db_streaks :: streaks
  db_userAchievements :: user_achievements

record log_result =
  res_streak :: "int \<times> int"
  res_totalXP :: nat
  res_level :: int
  res_newAchievements :: "achievement list"

definition updateStreakOnLog :: "int \<Rightarrow> int \<Rightarrow> userId \<Rightarrow> db \<Rightarrow> js_error + (log_result \<times> db)" where
  \<comment> \<open>\<open>res_streak\<close> is the pair \<open>{ currentStreak, longestStreak }\<close> that \<open>updateStreak\<close>
      returned, before the checks\<close>
  "updateStreakOnLog tz now uid d =
     (let (s0, coll) = getOrCreateStreakFixed (db_streaks d) uid;
          s1 = s0\<lparr> totalLogsCount := totalLogsCount s0 + 1 \<rparr>;
          s2 = updateStreak tz now True s1;
          streakResult = (currentStreak s2, longestStreak s2);
          s3 = addXP 10 s2
      in and_then (checkAchievements uid s3 (db_userAchievements d))
           (\<lambda>(s4, ua, newAchievements).
              Inr (\<lparr> res_streak = streakResult, res_totalXP = totalXP s4, res_level = level s4,
                     res_newAchievements = newAchievements \<rparr>,
                   \<lparr> db_streaks = coll(uid \<mapsto> s4), db_userAchievements = ua \<rparr>)))"

subsection \<open>Who calls whom in the module\<close>

text \<open>
  The functions the module declares, the calls each body makes to functions of the module,
  the bodies that query the \<open>Streak\<close> collection themselves (\<open>Streak.findOne\<close>,
  \<open>Streak.create\<close>, \<open>Streak.find\<close>), and \<open>module.exports\<close>.
\<close>

datatype gamification_fn =
    GetOrCreateStreak | GetOrCreateStreakFixed | UpdateStreakOnLog | CheckAchievements
  | UnlockAchievement | GetUserStats | GetLeaderboard | SetBaseline | GetReductionProgress

fun callees :: "gamification_fn \<Rightarrow> gamification_fn list" where
  "callees GetOrCreateStreak = []"
| "callees GetOrCreateStreakFixed = []"
| "callees UpdateStreakOnLog = [GetOrCreateStreakFixed, CheckAchievements]"
| "callees CheckAchievements = [UnlockAchievement]"
| "callees UnlockAchievement = []"
| "callees GetUserStats = [GetOrCreateStreakFixed]"
| "callees GetLeaderboard = []"
| "callees SetBaseline = [GetOrCreateStreakFixed]"
| "callees GetReductionProgress = [GetOrCreateStreakFixed]"

fun queries_Streak :: "gamification_fn \<Rightarrow> bool" where
  "queries_Streak GetOrCreateStreak = True"
| "queries_Streak GetOrCreateStreakFixed = True"
| "queries_Streak GetLeaderboard = True"
| "queries_Streak _ = False"

definition module_exports :: "gamification_fn list" where
  "module_exports = [UpdateStreakOnLog, GetUserStats, GetLeaderboard, SetBaseline,
     GetReductionProgress, CheckAchievements, UnlockAchievement]"

definition calls :: "(gamification_fn \<times> gamification_fn) set" where
  "calls = {(f, g). g \<in> set (callees f)}"

section \<open>Intake events (models/intake.model.js)\<close>

text \<open>
  \<open>puffs\<close> is a JavaScript number that the schema and the request validator bound by 1 and
  100 without asking for an integer; numbers are modelled as reals, so the rounding of
  double arithmetic is not part of the model. The collection is read through
  \<open>Intake.find(...).sort({ loggedAt: 1 })\<close>; a query that fails throws, and the services
  log the error and throw it again.
\<close>

datatype intensity_level = Low | Medium | High

datatype intake_context = Stress | Bored | Habit | Social | Other

record intake =
  userId :: userId
  puffs :: real
  intensity :: intensity_level
  ctx :: intake_context
  loggedAt :: int

type_synonym intake_store = "js_error + intake list"

definition Intake_find :: "intake_store \<Rightarrow> userId \<Rightarrow> (int \<Rightarrow> bool) \<Rightarrow> js_error + intake list" where
  \<comment> \<open>the user's events whose \<open>loggedAt\<close> passes the range filter, oldest first\<close>
  "Intake_find store uid in_range =
     and_then store
       (\<lambda>docs. Inr (sort_key loggedAt (filter (\<lambda>i. userId i = uid \<and> in_range (loggedAt i)) docs)))"

definition add_at :: "nat \<Rightarrow> real \<Rightarrow> real list \<Rightarrow> real list" where
  \<comment> \<open>\<open>arr[k] += v\<close> for an index inside the array\<close>
  "add_at k v arr = arr[k := arr ! k + v]"

definition count_key :: "('k \<times> real) list \<Rightarrow> 'k \<Rightarrow> real \<Rightarrow> ('k \<times> real) list" where
  \<comment> \<open>\<open>obj[k] = (obj[k] || 0) + v\<close>; a new key goes last, as in a JavaScript object\<close>
  "count_key obj k v =
     (case map_of obj k of
        None \<Rightarrow> obj @ [(k, v)]
      | Some c \<Rightarrow> AList.update k (c + v) obj)"


definition Math_max_list :: "real list \<Rightarrow> real \<Rightarrow> real" where
  \<comment> \<open>\<open>Math.max(...arr, v)\<close>\<close>
  "Math_max_list arr v = fold max arr v"

section \<open>The analytics service\<close>









section \<open>JavaScript numbers where they can leave the reals\<close>

text \<open>
  The prediction divides by a mean that can be zero and raises a quotient that can be
  negative to the power 1.5, so its numbers can be infinite or \<open>NaN\<close>. These operations
  follow ECMAScript on the extended reals. Zero is the positive zero (the divisors that
  can be zero here are means of non-negative numbers), and rounding of doubles is not
  modelled.
\<close>

datatype jsnum = Num real | PosInfinity | NegInfinity | NaN

fun js_sign :: "jsnum \<Rightarrow> int" where
  "js_sign (Num a) = (if a > 0 then 1 else if a < 0 then - 1 else 0)"
| "js_sign PosInfinity = 1"
| "js_sign NegInfinity = - 1"
| "js_sign NaN = 0"

definition js_inf :: "int \<Rightarrow> jsnum" where
  \<comment> \<open>the infinity of a sign; no sign gives \<open>NaN\<close>\<close>
  "js_inf sg = (if sg > 0 then PosInfinity else if sg < 0 then NegInfinity else NaN)"

fun js_add :: "jsnum \<Rightarrow> jsnum \<Rightarrow> jsnum" where
  "js_add NaN _ = NaN"
| "js_add _ NaN = NaN"
| "js_add (Num a) (Num b) = Num (a + b)"
| "js_add PosInfinity NegInfinity = NaN"
| "js_add NegInfinity PosInfinity = NaN"
| "js_add PosInfinity _ = PosInfinity"
| "js_add _ PosInfinity = PosInfinity"
| "js_add NegInfinity _ = NegInfinity"
| "js_add _ NegInfinity = NegInfinity"

fun js_neg :: "jsnum \<Rightarrow> jsnum" where
  "js_neg (Num a) = Num (- a)"
| "js_neg PosInfinity = NegInfinity"
| "js_neg NegInfinity = PosInfinity"
| "js_neg NaN = NaN"

definition js_sub :: "jsnum \<Rightarrow> jsnum \<Rightarrow> jsnum" where
  "js_sub a b = js_add a (js_neg b)"

fun js_mul :: "jsnum \<Rightarrow> jsnum \<Rightarrow> jsnum" where
  "js_mul NaN _ = NaN"
| "js_mul _ NaN = NaN"
| "js_mul (Num a) (Num b) = Num (a * b)"
| "js_mul a b = js_inf (js_sign a * js_sign b)"

fun js_div :: "jsnum \<Rightarrow> jsnum \<Rightarrow> jsnum" where
  "js_div NaN _ = NaN"
| "js_div _ NaN = NaN"
| "js_div (Num a) (Num b) = (if b = 0 then js_inf (js_sign (Num a)) else Num (a / b))"
| "js_div (Num a) _ = Num 0"
| "js_div a (Num b) = js_inf (js_sign a * (if b < 0 then - 1 else 1))"
| "js_div _ _ = NaN"

fun Math_exp :: "jsnum \<Rightarrow> jsnum" where
  "Math_exp (Num a) = Num (exp a)"
| "Math_exp PosInfinity = PosInfinity"
| "Math_exp NegInfinity = Num 0"
| "Math_exp NaN = NaN"

fun Math_pow_frac :: "jsnum \<Rightarrow> real \<Rightarrow> jsnum" where
  \<comment> \<open>\<open>Math.pow(b, e)\<close> for an exponent \<open>e > 0\<close> that is not an integer\<close>
  "Math_pow_frac (Num a) e = (if a < 0 then NaN else Num (a powr e))"
| "Math_pow_frac PosInfinity e = PosInfinity"
| "Math_pow_frac NegInfinity e = PosInfinity"
| "Math_pow_frac NaN e = NaN"

fun Math_min :: "jsnum \<Rightarrow> jsnum \<Rightarrow> jsnum" where
  "Math_min NaN _ = NaN"
| "Math_min _ NaN = NaN"
| "Math_min NegInfinity _ = NegInfinity"
| "Math_min _ NegInfinity = NegInfinity"
| "Math_min PosInfinity b = b"
| "Math_min a PosInfinity = a"
| "Math_min (Num a) (Num b) = Num (min a b)"

fun Math_max :: "jsnum \<Rightarrow> jsnum \<Rightarrow> jsnum" where
  "Math_max NaN _ = NaN"
| "Math_max _ NaN = NaN"
| "Math_max PosInfinity _ = PosInfinity"
| "Math_max _ PosInfinity = PosInfinity"
| "Math_max NegInfinity b = b"
| "Math_max a NegInfinity = a"
| "Math_max (Num a) (Num b) = Num (max a b)"

fun Math_round :: "jsnum \<Rightarrow> jsnum" where
  \<comment> \<open>to the nearest integer, a half upwards\<close>
  "Math_round (Num a) = Num (of_int \<lfloor>a + 1 / 2\<rfloor>)"
| "Math_round v = v"

fun js_gt :: "jsnum \<Rightarrow> jsnum \<Rightarrow> bool" where
  "js_gt NaN _ = False"
| "js_gt _ NaN = False"
| "js_gt (Num a) (Num b) = (a > b)"
| "js_gt PosInfinity b = (b \<noteq> PosInfinity)"
| "js_gt NegInfinity _ = False"
| "js_gt (Num a) b = (b = NegInfinity)"

section \<open>The prediction service (services/prediction.service.js)\<close>

text \<open>
  The local constants of \<open>predictCraving\<close>, each under its own name, as functions of the
  clock and of \<open>intakes\<close>, the events the query returned.
\<close>

definition hourlyWeights :: "int \<Rightarrow> intake list \<Rightarrow> real list" where
  "hourlyWeights tz intakes =
     foldl (\<lambda>arr i. add_at (hour_of tz (loggedAt i)) (puffs i) arr) (replicate 24 0) intakes"

definition hourFactor :: "int \<Rightarrow> int \<Rightarrow> intake list \<Rightarrow> real" where
  "hourFactor tz now intakes =
     (let maxHourWeight = Math_max_list (hourlyWeights tz intakes) 1;
          normalizedHourly = map (\<lambda>w. w / maxHourWeight) (hourlyWeights tz intakes)
      in normalizedHourly ! hour_of tz now)"

definition dayWeights :: "int \<Rightarrow> intake list \<Rightarrow> real list" where
  "dayWeights tz intakes =
     foldl (\<lambda>arr i. add_at (day_of tz (loggedAt i)) (puffs i) arr) (replicate 7 0) intakes"

definition dayFactor :: "int \<Rightarrow> int \<Rightarrow> intake list \<Rightarrow> real" where
  "dayFactor tz now intakes =
     (let maxDayWeight = Math_max_list (dayWeights tz intakes) 1;
          normalizedDaily = map (\<lambda>w. w / maxDayWeight) (dayWeights tz intakes)
      in normalizedDaily ! day_of tz now)"

definition diff_hours :: "int \<Rightarrow> int \<Rightarrow> real" where
  \<comment> \<open>\<open>dayjs(a).diff(dayjs(b), 'hour', true)\<close>\<close>
  "diff_hours a b = real_of_int (a - b) / real_of_int MS_PER_HOUR"

definition gaps :: "intake list \<Rightarrow> real list" where
  "gaps intakes =
     filter (\<lambda>gap. gap < 24)
       (map (\<lambda>k. diff_hours (loggedAt (intakes ! k)) (loggedAt (intakes ! (k - 1))))
          [1..<length intakes])"

definition avgGap :: "intake list \<Rightarrow> real" where
  "avgGap intakes =
     (if length (gaps intakes) > 0
      then foldl (\<lambda>a b. a + b) 0 (gaps intakes) / real (length (gaps intakes)) else 4)"

definition hoursSinceLastIntake :: "int \<Rightarrow> intake list \<Rightarrow> real" where
  "hoursSinceLastIntake now intakes = diff_hours now (loggedAt (last intakes))"

definition timeFactor :: "int \<Rightarrow> intake list \<Rightarrow> jsnum" where
  "timeFactor now intakes =
     Math_min (Num 1)
       (Math_pow_frac (js_div (Num (hoursSinceLastIntake now intakes)) (Num (avgGap intakes))) 1.5)"

definition contextCounts :: "intake list \<Rightarrow> (intake_context \<times> real) list" where
  "contextCounts intakes = foldl (\<lambda>obj i. count_key obj (ctx i) 1) [] intakes"

definition contextFactor :: "intake list \<Rightarrow> real" where
  "contextFactor intakes =
     (let counts = map snd (contextCounts intakes);
          totalContexts = foldl (\<lambda>a b. a + b) 0 counts;
          contextEntropy =
            foldl (\<lambda>entropy c. let p = c / totalContexts in entropy - p * log 2 p) 0 counts
      in 1 - contextEntropy / log 2 5)"

definition trendFactor :: "int \<Rightarrow> intake list \<Rightarrow> real" where
  "trendFactor now intakes =
     (let lastThreeDays = filter (\<lambda>i. loggedAt i > now - 3 * MS_PER_DAY) intakes;
          last3DaysPuffs = foldl (\<lambda>s i. s + puffs i) 0 lastThreeDays;
          previous3Days =
            filter (\<lambda>i. loggedAt i > now - 6 * MS_PER_DAY \<and> loggedAt i < now - 3 * MS_PER_DAY) intakes;
          prev3DaysPuffs = foldl (\<lambda>s i. s + puffs i) 0 previous3Days
      in if prev3DaysPuffs > 0
         then (let trendRatio = last3DaysPuffs / prev3DaysPuffs in min 1 (max 0 (trendRatio - 0.5)))
         else 0.5)"

definition baseProbability :: "int \<Rightarrow> int \<Rightarrow> intake list \<Rightarrow> jsnum" where
  "baseProbability tz now intakes =
     js_add (js_add (js_add (js_add
       (Num (hourFactor tz now intakes * 0.40))
       (Num (dayFactor tz now intakes * 0.15)))
       (js_mul (timeFactor now intakes) (Num 0.25)))
       (Num (contextFactor intakes * 0.10)))
       (Num (trendFactor now intakes * 0.10))"

definition smoothedProbability :: "int \<Rightarrow> int \<Rightarrow> intake list \<Rightarrow> jsnum" where
  "smoothedProbability tz now intakes =
     js_div (Num 1)
       (js_add (Num 1)
          (Math_exp (js_mul (Num (- 6)) (js_sub (baseProbability tz now intakes) (Num 0.5)))))"

definition clampedProbability :: "int \<Rightarrow> int \<Rightarrow> intake list \<Rightarrow> jsnum" where
  \<comment> \<open>the local constant \<open>probability\<close>\<close>
  "clampedProbability tz now intakes =
     Math_min (Num 0.95) (Math_max (Num 0.05) (smoothedProbability tz now intakes))"

record factor_scores =
  hourOfDay :: jsnum
  dayOfWeek :: jsnum
  timeSinceLastIntake :: jsnum
  patternPredictability :: jsnum
  recentTrend :: jsnum

text \<open>
  The result object: \<open>probability\<close> is \<open>None\<close> for \<open>null\<close>; \<open>riskLevel\<close> and \<open>factors\<close> are
  \<open>None\<close> when the object has no such key. The keys \<open>timing\<close>, \<open>nextLikelyTime\<close>,
  \<open>triggers\<close>, \<open>recommendation\<close> and \<open>historicalContext\<close> are not modelled.
\<close>

record prediction =
  probability :: "jsnum option"
  riskLevel :: "string option"
  confidence :: string
  pred_message :: "string option"
  factors :: "factor_scores option"

definition predictCraving :: "int \<Rightarrow> int \<Rightarrow> userId \<Rightarrow> intake_store \<Rightarrow> js_error + prediction" where
  "predictCraving tz now uid store =
     (let twoWeeksAgo = now - 14 * MS_PER_DAY
      in and_then (Intake_find store uid (\<lambda>t. t \<ge> twoWeeksAgo))
           (\<lambda>intakes.
              if length intakes < 5 then
                Inr \<lparr> probability = None, riskLevel = None, confidence = ''low'',
                      pred_message = Some ''Not enough data for accurate prediction. Keep logging!'',
                      factors = None \<rparr>
              else
                let prob = clampedProbability tz now intakes;
                    conf = (if length intakes > 50 \<and> length (gaps intakes) > 20 then ''high''
                            else if length intakes < 15 then ''low'' else ''medium'');
                    risk = (if js_gt prob (Num 0.7) then ''high''
                            else if js_gt prob (Num 0.4) then ''moderate'' else ''low'')
                in Inr \<lparr> probability = Some (Math_round (js_mul prob (Num 100))),
                         riskLevel = Some risk, confidence = conf, pred_message = None,
                         factors = Some
                           \<lparr> hourOfDay = Math_round (Num (hourFactor tz now intakes * 100)),
                             dayOfWeek = Math_round (Num (dayFactor tz now intakes * 100)),
                             timeSinceLastIntake = Math_round (js_mul (timeFactor now intakes) (Num 100)),
                             patternPredictability = Math_round (Num (contextFactor intakes * 100)),
                             recentTrend = Math_round (Num (trendFactor now intakes * 100)) \<rparr> \<rparr>))"

section \<open>Notions used in the statements\<close>

text \<open>
  The words of the specification about a streak: the last active date falls on today's
  calendar day, or on the calendar day before today.
\<close>

definition activeToday :: "int \<Rightarrow> int \<Rightarrow> streak \<Rightarrow> bool" where
  "activeToday tz now s =
     (case lastActiveDate s of None \<Rightarrow> False | Some la \<Rightarrow> setHours0 tz la = setHours0 tz now)"

definition activeYesterday :: "int \<Rightarrow> int \<Rightarrow> streak \<Rightarrow> bool" where
  "activeYesterday tz now s =
     (case lastActiveDate s of None \<Rightarrow> False | Some la \<Rightarrow> calendarDay tz la + 1 = calendarDay tz now)"

text \<open>The level the specification's formula gives for a number of experience points.\<close>

definition level_of_xp :: "nat \<Rightarrow> int" where
  "level_of_xp x = \<lfloor>sqrt (real x / 100)\<rfloor> + 1"

text \<open>The invariants the specification states for a streak record.\<close>

definition streak_invariant :: "streak \<Rightarrow> bool" where
  "streak_invariant s = (longestStreak s \<ge> currentStreak s)"

definition level_consistent :: "streak \<Rightarrow> bool" where
  "level_consistent s = (level s = level_of_xp (totalXP s))"

text \<open>
  \<open>checkAchievements\<close> in closed form: its nine blocks as a list of conditions and
  achievements, and the effect of one block that does not fail. A condition is independent
  of the experience points when adding points to the streak does not change it; the pairs a
  run adds to the collection are \<open>new_pairs\<close> of the achievements it reports.
\<close>

definition catalog_checks :: "((streak \<Rightarrow> bool) \<times> achievement) list" where
  "catalog_checks =
     [(\<lambda>s. currentStreak s \<ge> 1, FIRST_DAY), (\<lambda>s. currentStreak s \<ge> 7, WEEK_WARRIOR),
      (\<lambda>s. currentStreak s \<ge> 30, MONTH_MASTER), (\<lambda>s. totalLogsCount s \<ge> 10, LOGGER_10),
      (\<lambda>s. totalLogsCount s \<ge> 50, LOGGER_50), (\<lambda>s. totalLogsCount s \<ge> 100, LOGGER_100),
      (\<lambda>s. totalMoneySaved s \<ge> 10, SAVER_10), (\<lambda>s. totalMoneySaved s \<ge> 50, SAVER_50),
      (\<lambda>s. totalMoneySaved s \<ge> 100, SAVER_100)]"

definition unlock_step :: "userId \<Rightarrow> check_state \<Rightarrow> (streak \<Rightarrow> bool) \<times> achievement \<Rightarrow> check_state" where
  "unlock_step uid st c =
     (case st of (s, ua, new) \<Rightarrow>
        if fst c s \<and> (uid, ach_id (snd c)) \<notin> set ua
        then (addXP (xp (snd c)) s, ua @ [(uid, ach_id (snd c))], new @ [snd c])
        else (s, ua, new))"

definition xp_independent :: "(streak \<Rightarrow> bool) \<times> achievement \<Rightarrow> bool" where
  "xp_independent c = (\<forall>k s. fst c (addXP k s) = fst c s)"

definition new_pairs :: "userId \<Rightarrow> achievement list \<Rightarrow> (userId \<times> string) list" where
  "new_pairs uid as = map (\<lambda>a. (uid, ach_id a)) as"




definition trailing_events :: "int \<Rightarrow> userId \<Rightarrow> intake list \<Rightarrow> intake list" where
  "trailing_events now uid docs =
     filter (\<lambda>i. userId i = uid \<and> loggedAt i \<ge> now - 14 * MS_PER_DAY) docs"

definition window_intakes :: "int \<Rightarrow> userId \<Rightarrow> intake list \<Rightarrow> intake list" where
  "window_intakes now uid docs = sort_key loggedAt (trailing_events now uid docs)"


text \<open>The result \<open>predictCraving\<close> returns when the window holds too few events.\<close>

definition not_enough_data :: prediction where
  "not_enough_data = \<lparr> probability = None, riskLevel = None, confidence = ''low'',
     pred_message = Some ''Not enough data for accurate prediction. Keep logging!'',
     factors = None \<rparr>"

text \<open>
  \<open>f\<close> reaches the \<open>Streak\<close> collection only through \<open>getOrCreateStreakFixed\<close>: of the
  functions a call of \<open>f\<close> can enter, that helper is the only one that queries it. The
  functions of \<open>with_fixed_helper\<close> are those of the module apart from the broken helper
  and \<open>getLeaderboard\<close>.
\<close>

definition only_through_fixed :: "gamification_fn \<Rightarrow> bool" where
  "only_through_fixed f =
     (\<forall>g. (f, g) \<in> calls\<^sup>* \<and> queries_Streak g \<longrightarrow> g = GetOrCreateStreakFixed)"

definition with_fixed_helper :: "gamification_fn set" where
  "with_fixed_helper = {UpdateStreakOnLog, GetOrCreateStreakFixed, CheckAchievements,
     UnlockAchievement, GetUserStats, SetBaseline, GetReductionProgress}"

text \<open>
  Concrete events for the instances below: a day of one user with a second user's event
  and an event of the next day; a week with a single event on its last day; \<open>n\<close> events
  one hour apart; five events at one hour of the day, four of them minutes before
  \<open>peak_now\<close> (\<open>early_now\<close> lies before the last of them).
\<close>

definition example_day :: "intake list" where
  "example_day =
     [\<lparr> userId = ''u1'', puffs = 3, intensity = Medium, ctx = Stress, loggedAt = 86400000 + 9 * 3600000 + 5 \<rparr>,
      \<lparr> userId = ''u1'', puffs = 2, intensity = Low, ctx = Habit, loggedAt = 86400000 + 9 * 3600000 + 70000 \<rparr>,
      \<lparr> userId = ''u1'', puffs = 1, intensity = High, ctx = Social, loggedAt = 86400000 + 14 * 3600000 \<rparr>,
      \<lparr> userId = ''u2'', puffs = 7, intensity = High, ctx = Other, loggedAt = 86400000 + 14 * 3600000 \<rparr>,
      \<lparr> userId = ''u1'', puffs = 4, intensity = Low, ctx = Bored, loggedAt = 2 * 86400000 + 1 \<rparr>]"


definition hourly_events :: "nat \<Rightarrow> intake list" where
  "hourly_events n =
     map (\<lambda>k. \<lparr> userId = ''u1'', puffs = 1, intensity = Low, ctx = Habit,
                 loggedAt = int k * 3600000 \<rparr>) [0..<n]"

definition peak_events :: "intake list" where
  "peak_events =
     [\<lparr> userId = ''u1'', puffs = 1, intensity = Low, ctx = Stress,
        loggedAt = 6 * 86400000 + 10 * 3600000 \<rparr>,
      \<lparr> userId = ''u1'', puffs = 10, intensity = High, ctx = Stress,
        loggedAt = 10 * 86400000 + 10 * 3600000 \<rparr>,
      \<lparr> userId = ''u1'', puffs = 10, intensity = High, ctx = Stress,
        loggedAt = 10 * 86400000 + 10 * 3600000 + 300000 \<rparr>,
      \<lparr> userId = ''u1'', puffs = 10, intensity = High, ctx = Stress,
        loggedAt = 10 * 86400000 + 10 * 3600000 + 600000 \<rparr>,
      \<lparr> userId = ''u1'', puffs = 10, intensity = High, ctx = Stress,
        loggedAt = 10 * 86400000 + 10 * 3600000 + 900000 \<rparr>]"

definition peak_now :: int where
  "peak_now = 10 * 86400000 + 10 * 3600000 + 1800000"

definition early_now :: int where
  "early_now = 10 * 86400000 + 10 * 3600000 + 800000"

section \<open>Lemmas: calendar days, streaks and levels\<close>

lemma setHours0_diff:
  "(setHours0 tz a - setHours0 tz b) div MS_PER_DAY = calendarDay tz a - calendarDay tz b"
proof -
  have "setHours0 tz a - setHours0 tz b = (calendarDay tz a - calendarDay tz b) * MS_PER_DAY"
    by (simp add: setHours0_def algebra_simps)
  then show ?thesis by (simp add: MS_PER_DAY_def)
qed

lemma setHours0_eq_iff:
  "setHours0 tz a = setHours0 tz b \<longleftrightarrow> calendarDay tz a = calendarDay tz b"
  by (simp add: setHours0_def MS_PER_DAY_def)


lemma currentStreak_updateStreak:
  "currentStreak (updateStreak tz now d s) =
     (if activeToday tz now s then currentStreak s
      else if activeYesterday tz now s \<and> d then currentStreak s + 1
      else if d then 1 else 0)"
proof (cases "lastActiveDate s")
  case None
  then show ?thesis
    by (simp add: updateStreak_def activeToday_def activeYesterday_def Let_def)
next
  case (Some la)
  show ?thesis
    using Some
    by (auto simp: updateStreak_def activeToday_def activeYesterday_def Let_def
          setHours0_diff setHours0_eq_iff)
qed


lemma longestStreak_updateStreak:
  "longestStreak (updateStreak tz now d s) =
     max (longestStreak s) (currentStreak (updateStreak tz now d s))"
  by (simp add: updateStreak_def Let_def max_def)

lemma hour_of_less: "hour_of tz t < 24"
  by (simp add: hour_of_def nat_less_iff)

lemma day_of_less: "day_of tz t < 7"
  by (simp add: day_of_def nat_less_iff)

lemma level_of_xp_iff:
  "level_of_xp x = int k + 1 \<longleftrightarrow> 100 * k ^ 2 \<le> x \<and> x < 100 * (k + 1) ^ 2"
proof -
  have a: "real k \<le> sqrt (real x / 100) \<longleftrightarrow> 100 * k ^ 2 \<le> x"
  proof -
    have "real k \<le> sqrt (real x / 100) \<longleftrightarrow> (real k)\<^sup>2 \<le> real x / 100"
      by (metis of_nat_0_le_iff real_sqrt_le_iff real_sqrt_abs abs_of_nonneg)
    also have "\<dots> \<longleftrightarrow> real (100 * k ^ 2) \<le> real x"
      by (simp add: field_simps)
    also have "\<dots> \<longleftrightarrow> 100 * k ^ 2 \<le> x"
      by (simp only: of_nat_le_iff)
    finally show ?thesis .
  qed
  have b: "sqrt (real x / 100) < real k + 1 \<longleftrightarrow> x < 100 * (k + 1) ^ 2"
  proof -
    have "sqrt (real x / 100) < real (k + 1) \<longleftrightarrow> real x / 100 < (real (k + 1))\<^sup>2"
      by (metis of_nat_0_le_iff real_sqrt_less_iff real_sqrt_abs abs_of_nonneg)
    also have "\<dots> \<longleftrightarrow> real x < real (100 * (k + 1) ^ 2)"
      by (simp add: field_simps)
    also have "\<dots> \<longleftrightarrow> x < 100 * (k + 1) ^ 2"
      by (simp only: of_nat_less_iff)
    finally show ?thesis by (simp add: add.commute)
  qed
  have "level_of_xp x = int k + 1 \<longleftrightarrow> \<lfloor>sqrt (real x / 100)\<rfloor> = int k"
    by (simp add: level_of_xp_def)
  also have "\<dots> \<longleftrightarrow> real k \<le> sqrt (real x / 100) \<and> sqrt (real x / 100) < real k + 1"
    by (simp add: floor_eq_iff)
  finally show ?thesis using a b by simp
qed

lemma level_addXP: "level (addXP amount s) = level_of_xp (totalXP s + amount)"
  by (simp add: addXP_def calculateLevel_def level_of_xp_def)

lemma totalXP_addXP: "totalXP (addXP amount s) = totalXP s + amount"
  by (simp add: addXP_def calculateLevel_def)

lemma level_of_xp_0: "level_of_xp 0 = 1"
  using level_of_xp_iff [of 0 0] by simp
lemma level_of_xp_100: "level_of_xp 100 = 2"
  using level_of_xp_iff [of 100 1] by (simp add: power2_eq_square)
lemma level_of_xp_400: "level_of_xp 400 = 3"
  using level_of_xp_iff [of 400 2] by (simp add: power2_eq_square)

lemma xpForNextLevel_eq: "xpForNextLevel s = (level s) ^ 2 * 100"
  by (simp add: xpForNextLevel_def Let_def)

section \<open>Lemmas: unlocking achievements\<close>

lemmas catalog_defs = FIRST_DAY_def WEEK_WARRIOR_def MONTH_MASTER_def FIRST_REDUCTION_def
  HALF_WAY_def SMOKE_FREE_DAY_def LOGGER_10_def LOGGER_50_def LOGGER_100_def INSIGHT_SEEKER_def
  COACH_FOLLOWER_def MORNING_DELAY_def SAVER_10_def SAVER_50_def SAVER_100_def

lemma findOne_None_iff: "UserAchievement_findOne ua uid aid = None \<longleftrightarrow> (uid, aid) \<notin> set ua"
  by (auto simp: UserAchievement_findOne_def find_None_iff)

lemma unlockAchievement_existing:
  "(uid, aid) \<in> set ua \<Longrightarrow> unlockAchievement uid aid strk ua = Inr (False, strk, ua)"
proof -
  assume "(uid, aid) \<in> set ua"
  then have "UserAchievement_findOne ua uid aid \<noteq> None"
    by (simp add: findOne_None_iff)
  then obtain d where "UserAchievement_findOne ua uid aid = Some d" by auto
  then show ?thesis by (simp add: unlockAchievement_def)
qed

lemma catalog_ids:
  "map ach_id ACHIEVEMENTS_values =
     [''first_day'', ''week_warrior'', ''month_master'', ''first_reduction'', ''half_way'',
      ''smoke_free_day'', ''logger_10'', ''logger_50'', ''logger_100'', ''insight_seeker'',
      ''coach_follower'', ''morning_delay'', ''saver_10'', ''saver_50'', ''saver_100'']"
  by (simp add: ACHIEVEMENTS_values_def catalog_defs)

lemma catalog_ids_distinct: "distinct (map ach_id ACHIEVEMENTS_values)"
  unfolding catalog_ids by simp

lemma find_by_key:
  "distinct (map f xs) \<Longrightarrow> a \<in> set xs \<Longrightarrow> find (\<lambda>b. f b = f a) xs = Some a"
  by (induction xs) (auto simp: rev_image_eqI)

lemma find_catalog:
  "a \<in> set ACHIEVEMENTS_values \<Longrightarrow> find (\<lambda>b. ach_id b = ach_id a) ACHIEVEMENTS_values = Some a"
  by (rule find_by_key [OF catalog_ids_distinct])

lemma unlockAchievement_new:
  assumes "a \<in> set ACHIEVEMENTS_values" and "(uid, ach_id a) \<notin> set ua"
  shows "unlockAchievement uid (ach_id a) (Some s) ua
           = Inr (True, Some (addXP (xp a) s), ua @ [(uid, ach_id a)])"
proof -
  have "UserAchievement_findOne ua uid (ach_id a) = None"
    using assms(2) by (simp add: findOne_None_iff)
  moreover have "UserAchievement_create ua uid (ach_id a) = Inr (ua @ [(uid, ach_id a)])"
    using assms by (simp add: UserAchievement_create_def)
  ultimately show ?thesis
    using find_catalog [OF assms(1)] by (simp add: unlockAchievement_def)
qed

lemma check_step_eq:
  assumes "a \<in> set ACHIEVEMENTS_values"
  shows "check_step uid cond (ach_id a) a st = Inr (unlock_step uid st (cond, a))"
proof (cases st)
  case (fields s ua new)
  show ?thesis
  proof (cases "cond s")
    case False
    then show ?thesis using fields by (simp add: check_step_def unlock_step_def)
  next
    case True
    show ?thesis
    proof (cases "(uid, ach_id a) \<in> set ua")
      case True
      then show ?thesis
        using fields \<open>cond s\<close>
        by (simp add: check_step_def unlock_step_def and_then_def unlockAchievement_existing)
    next
      case False
      then show ?thesis
        using fields \<open>cond s\<close> assms
        by (simp add: check_step_def unlock_step_def and_then_def unlockAchievement_new)
    qed
  qed
qed

lemma and_then_Inr: "and_then (Inr v) f = f v"
  by (simp add: and_then_def)

lemma and_then_Inl: "and_then (Inl e) f = Inl e"
  by (simp add: and_then_def)

lemma check_step_catalog:
  "check_step uid c ''first_day'' FIRST_DAY st = Inr (unlock_step uid st (c, FIRST_DAY))"
  "check_step uid c ''week_warrior'' WEEK_WARRIOR st = Inr (unlock_step uid st (c, WEEK_WARRIOR))"
  "check_step uid c ''month_master'' MONTH_MASTER st = Inr (unlock_step uid st (c, MONTH_MASTER))"
  "check_step uid c ''logger_10'' LOGGER_10 st = Inr (unlock_step uid st (c, LOGGER_10))"
  "check_step uid c ''logger_50'' LOGGER_50 st = Inr (unlock_step uid st (c, LOGGER_50))"
  "check_step uid c ''logger_100'' LOGGER_100 st = Inr (unlock_step uid st (c, LOGGER_100))"
  "check_step uid c ''saver_10'' SAVER_10 st = Inr (unlock_step uid st (c, SAVER_10))"
  "check_step uid c ''saver_50'' SAVER_50 st = Inr (unlock_step uid st (c, SAVER_50))"
  "check_step uid c ''saver_100'' SAVER_100 st = Inr (unlock_step uid st (c, SAVER_100))"
  using check_step_eq [of FIRST_DAY uid c st] check_step_eq [of WEEK_WARRIOR uid c st]
    check_step_eq [of MONTH_MASTER uid c st] check_step_eq [of LOGGER_10 uid c st]
    check_step_eq [of LOGGER_50 uid c st] check_step_eq [of LOGGER_100 uid c st]
    check_step_eq [of SAVER_10 uid c st] check_step_eq [of SAVER_50 uid c st]
    check_step_eq [of SAVER_100 uid c st]
  by (simp_all add: ACHIEVEMENTS_values_def FIRST_DAY_def WEEK_WARRIOR_def MONTH_MASTER_def
        LOGGER_10_def LOGGER_50_def LOGGER_100_def SAVER_10_def SAVER_50_def SAVER_100_def)

lemma checkAchievements_eq:
  "checkAchievements uid strk ua = Inr (foldl (unlock_step uid) (strk, ua, []) catalog_checks)"
  unfolding checkAchievements_def catalog_checks_def
  by (simp only: check_step_catalog and_then_Inr foldl.simps)

lemma addXP_fields:
  "currentStreak (addXP k s) = currentStreak s"
  "longestStreak (addXP k s) = longestStreak s"
  "lastActiveDate (addXP k s) = lastActiveDate s"
  "totalLogsCount (addXP k s) = totalLogsCount s"
  "totalMoneySaved (addXP k s) = totalMoneySaved s"
  by (simp_all add: addXP_def calculateLevel_def)


lemma run_invariant:
  assumes "foldl (unlock_step uid) (s, ua, new) cs = (s', ua', new')"
  shows "\<exists>added. new' = new @ added \<and> ua' = ua @ new_pairs uid added
           \<and> totalXP s' = totalXP s + sum_list (map xp added)
           \<and> distinct (new_pairs uid added) \<and> set (new_pairs uid added) \<inter> set ua = {}
           \<and> set added \<subseteq> snd ` set cs
           \<and> (\<forall>c. xp_independent c \<longrightarrow> fst c s' = fst c s)
           \<and> currentStreak s' = currentStreak s \<and> longestStreak s' = longestStreak s
           \<and> (added = [] \<longrightarrow> s' = s)"
  using assms
proof (induction cs arbitrary: s' ua' new' rule: rev_induct)
  case Nil
  then show ?case by (simp add: new_pairs_def)
next
  case (snoc c cs)
  obtain s1 ua1 new1 where mid: "foldl (unlock_step uid) (s, ua, new) cs = (s1, ua1, new1)"
    by (metis prod_cases3)
  from snoc.IH [OF mid] obtain added where
    a: "new1 = new @ added" "ua1 = ua @ new_pairs uid added"
       "totalXP s1 = totalXP s + sum_list (map xp added)"
       "distinct (new_pairs uid added)" "set (new_pairs uid added) \<inter> set ua = {}"
       "set added \<subseteq> snd ` set cs"
       "\<forall>c. xp_independent c \<longrightarrow> fst c s1 = fst c s"
       "currentStreak s1 = currentStreak s" "longestStreak s1 = longestStreak s"
       "added = [] \<longrightarrow> s1 = s"
    by blast
  have last_step: "unlock_step uid (s1, ua1, new1) c = (s', ua', new')"
    using snoc.prems mid by simp
  show ?case
  proof (cases "fst c s1 \<and> (uid, ach_id (snd c)) \<notin> set ua1")
    case False
    then have "s' = s1" "ua' = ua1" "new' = new1"
      using last_step by (auto simp: unlock_step_def)
    then show ?thesis using a by auto
  next
    case True
    then have r: "s' = addXP (xp (snd c)) s1" "ua' = ua1 @ [(uid, ach_id (snd c))]"
        "new' = new1 @ [snd c]"
      using last_step by (auto simp: unlock_step_def)
    let ?added = "added @ [snd c]"
    have "new' = new @ ?added" using r a by simp
    moreover have "ua' = ua @ new_pairs uid ?added" using r a by (simp add: new_pairs_def)
    moreover have "totalXP s' = totalXP s + sum_list (map xp ?added)"
      using r a by (simp add: addXP_def calculateLevel_def)
    moreover have "distinct (new_pairs uid ?added)"
      using True a by (auto simp: new_pairs_def)
    moreover have "set (new_pairs uid ?added) \<inter> set ua = {}"
      using True a by (auto simp: new_pairs_def)
    moreover have "set ?added \<subseteq> snd ` set (cs @ [c])" using a by auto
    moreover have "\<forall>c. xp_independent c \<longrightarrow> fst c s' = fst c s"
      using r a by (simp add: xp_independent_def)
    moreover have "currentStreak s' = currentStreak s" "longestStreak s' = longestStreak s"
      using r a by (simp_all add: addXP_fields)
    ultimately show ?thesis by blast
  qed
qed








lemma run_level:
  assumes "foldl (unlock_step uid) (s, ua, new) cs = (s', ua', new')" and "level_consistent s"
  shows "level_consistent s'"
  using assms
proof (induction cs arbitrary: s' ua' new' rule: rev_induct)
  case Nil
  then show ?case by simp
next
  case (snoc c cs)
  obtain s1 ua1 new1 where mid: "foldl (unlock_step uid) (s, ua, new) cs = (s1, ua1, new1)"
    by (metis prod_cases3)
  have "level_consistent s1" using snoc.IH [OF mid] snoc.prems(2) by simp
  moreover have "unlock_step uid (s1, ua1, new1) c = (s', ua', new')"
    using snoc.prems mid by simp
  ultimately show ?case
    by (auto simp: unlock_step_def level_consistent_def level_addXP totalXP_addXP split: if_splits)
qed

lemma distinct_new_pairs: "distinct (new_pairs uid as) = distinct (map ach_id as)"
  by (induction as) (auto simp: new_pairs_def)

lemma checkAchievements_result:
  "\<exists>s1 ua1 new1. checkAchievements uid s ua = Inr (s1, ua1, new1)
      \<and> ua1 = ua @ new_pairs uid new1
      \<and> totalXP s1 = totalXP s + sum_list (map xp new1)
      \<and> distinct (map ach_id new1) \<and> set (new_pairs uid new1) \<inter> set ua = {}
      \<and> currentStreak s1 = currentStreak s \<and> longestStreak s1 = longestStreak s
      \<and> (level_consistent s \<longrightarrow> level_consistent s1)"
proof -
  obtain s1 ua1 new1 where run: "foldl (unlock_step uid) (s, ua, []) catalog_checks = (s1, ua1, new1)"
    by (metis prod_cases3)
  from run_invariant [OF run] obtain added where
    a: "new1 = [] @ added" "ua1 = ua @ new_pairs uid added"
       "totalXP s1 = totalXP s + sum_list (map xp added)"
       "distinct (new_pairs uid added)" "set (new_pairs uid added) \<inter> set ua = {}"
       "currentStreak s1 = currentStreak s" "longestStreak s1 = longestStreak s"
    by blast
  have "level_consistent s \<longrightarrow> level_consistent s1"
    using run_level [OF run] by blast
  then show ?thesis
    using run a by (simp add: checkAchievements_eq distinct_new_pairs)
qed

lemma updateStreakOnLog_result:
  "\<exists>r d' s'. updateStreakOnLog tz now uid d = Inr (r, d') \<and> db_streaks d' uid = Some s'
      \<and> streak_invariant s'
      \<and> longestStreak s' \<ge> longestStreak (fst (getOrCreateStreakFixed (db_streaks d) uid))
      \<and> level_consistent s' \<and> res_level r = level s' \<and> res_totalXP r = totalXP s'"
proof -
  obtain s0 coll where g: "getOrCreateStreakFixed (db_streaks d) uid = (s0, coll)"
    by (metis surj_pair)
  let ?s2 = "updateStreak tz now True (s0\<lparr> totalLogsCount := totalLogsCount s0 + 1 \<rparr>)"
  let ?s3 = "addXP 10 ?s2"
  have c3: "level_consistent ?s3"
    by (simp add: level_consistent_def level_addXP totalXP_addXP)
  from checkAchievements_result [of uid ?s3 "db_userAchievements d"]
  obtain s4 ua new where
    chk: "checkAchievements uid ?s3 (db_userAchievements d) = Inr (s4, ua, new)"
    and f: "currentStreak s4 = currentStreak ?s3" "longestStreak s4 = longestStreak ?s3"
    and l: "level_consistent ?s3 \<longrightarrow> level_consistent s4"
    by blast
  have inv: "streak_invariant s4"
    using f by (simp add: streak_invariant_def addXP_fields longestStreak_updateStreak)
  have mono: "longestStreak s4 \<ge> longestStreak s0"
    using f by (simp add: addXP_fields longestStreak_updateStreak)
  show ?thesis
    using g chk inv mono l c3
    by (simp add: updateStreakOnLog_def Let_def and_then_def)
qed

section \<open>Lemmas: buckets, windows and the trend\<close>

lemma length_add_at: "length (add_at k v arr) = length arr"
  by (simp add: add_at_def)


lemma nth_add_at:
  "h < length arr \<Longrightarrow> add_at k v arr ! h = (if h = k then arr ! h + v else arr ! h)"
  by (simp add: add_at_def)

lemma length_buckets:
  "length (foldl (\<lambda>arr i. add_at (key i) (w i) arr) arr0 xs) = length arr0"
  by (induction xs arbitrary: arr0) (simp_all add: length_add_at)


lemma nth_buckets:
  "h < length arr0 \<Longrightarrow>
   foldl (\<lambda>arr i. add_at (key i) (w i) arr) arr0 xs ! h
     = arr0 ! h + sum_list (map w (filter (\<lambda>i. key i = h) xs))"
  by (induction xs arbitrary: arr0) (auto simp: length_add_at nth_add_at)

lemma foldl_plus: "foldl (\<lambda>sum i. sum + w i) (a::real) xs = a + sum_list (map w xs)"
  by (induction xs arbitrary: a) simp_all












section \<open>Lemmas: the prediction\<close>

lemma Intake_find_trailing:
  "Intake_find (Inr docs) uid (\<lambda>t. t \<ge> now - 14 * MS_PER_DAY) = Inr (window_intakes now uid docs)"
  by (simp add: Intake_find_def and_then_def window_intakes_def trailing_events_def)

lemma length_window_intakes: "length (window_intakes now uid docs) = length (trailing_events now uid docs)"
  by (simp add: window_intakes_def)

lemma predictCraving_few:
  "length (trailing_events now uid docs) < 5 \<Longrightarrow>
   predictCraving tz now uid (Inr docs) = Inr not_enough_data"
  unfolding predictCraving_def Let_def Intake_find_trailing and_then_Inr
  by (simp add: length_window_intakes not_enough_data_def)

lemma predictCraving_fields:
  assumes "\<not> length (trailing_events now uid docs) < 5"
  shows "\<exists>r. predictCraving tz now uid (Inr docs) = Inr r
     \<and> probability r = Some (Math_round (js_mul (clampedProbability tz now (window_intakes now uid docs)) (Num 100)))
     \<and> confidence r =
          (if length (window_intakes now uid docs) > 50 \<and> length (gaps (window_intakes now uid docs)) > 20
           then ''high''
           else if length (window_intakes now uid docs) < 15 then ''low'' else ''medium'')
     \<and> factors r \<noteq> None"
  using assms
  unfolding predictCraving_def Let_def Intake_find_trailing and_then_Inr
  by (simp add: length_window_intakes)

lemma predictCraving_error: "predictCraving tz now uid (Inl e) = Inl e"
  by (simp add: predictCraving_def Intake_find_def and_then_def)

lemma clamp_eq:
  "Math_min (Num 0.95) (Math_max (Num 0.05) v) =
     (case v of Num x \<Rightarrow> Num (min 0.95 (max 0.05 x)) | PosInfinity \<Rightarrow> Num 0.95
      | NegInfinity \<Rightarrow> Num 0.05 | NaN \<Rightarrow> NaN)"
  by (cases v) simp_all

lemma round_percent:
  assumes "0.05 \<le> p" "p \<le> (0.95::real)"
  shows "Math_round (js_mul (Num p) (Num 100)) = Num (of_int \<lfloor>p * 100 + 1 / 2\<rfloor>)"
    and "5 \<le> \<lfloor>p * 100 + 1 / 2\<rfloor>" and "\<lfloor>p * 100 + 1 / 2\<rfloor> \<le> 95"
proof -
  show "Math_round (js_mul (Num p) (Num 100)) = Num (of_int \<lfloor>p * 100 + 1 / 2\<rfloor>)" by simp
  have "5 \<le> p * 100 + 1 / 2" using assms by simp
  then show "5 \<le> \<lfloor>p * 100 + 1 / 2\<rfloor>" by (simp add: le_floor_iff)
  have "p * 100 + 1 / 2 < 96" using assms by simp
  then have "\<lfloor>p * 100 + 1 / 2\<rfloor> < 96" by (simp add: floor_less_iff)
  then show "\<lfloor>p * 100 + 1 / 2\<rfloor> \<le> 95" by simp
qed

lemma timeFactor_cases:
  "timeFactor now intakes =
     (let h = hoursSinceLastIntake now intakes; g = avgGap intakes in
      if g = 0 then (if h = 0 then NaN else Num 1)
      else if h / g < 0 then NaN else Num (min 1 ((h / g) powr 1.5)))"
  by (auto simp: timeFactor_def Let_def js_inf_def)

lemma sorted_gaps_nonneg:
  assumes "sorted (map loggedAt intakes)"
  shows "\<forall>g \<in> set (gaps intakes). 0 \<le> g"
proof -
  have "loggedAt (intakes ! (k - 1)) \<le> loggedAt (intakes ! k)" if "k < length intakes" for k
  proof -
    have "map loggedAt intakes ! (k - 1) \<le> map loggedAt intakes ! k"
      using assms that by (intro sorted_nth_mono) auto
    then show ?thesis using that by simp
  qed
  then show ?thesis
    by (auto simp: gaps_def diff_hours_def MS_PER_HOUR_def)
qed

lemma avgGap_nonneg:
  assumes "sorted (map loggedAt intakes)"
  shows "0 \<le> avgGap intakes"
proof -
  have "0 \<le> sum_list (gaps intakes)"
    using sorted_gaps_nonneg [OF assms] by (simp add: sum_list_nonneg)
  then show ?thesis
    by (simp add: avgGap_def foldl_plus [where w = "\<lambda>x. x", simplified])
qed

lemma sorted_window_intakes: "sorted (map loggedAt (window_intakes now uid docs))"
  by (simp add: window_intakes_def)

lemma timeFactor_Num:
  assumes "0 < hoursSinceLastIntake now intakes" and "0 \<le> avgGap intakes"
  shows "\<exists>t. timeFactor now intakes = Num t \<and> 0 \<le> t \<and> t \<le> 1"
proof (cases "avgGap intakes = 0")
  case True
  then show ?thesis using assms by (simp add: timeFactor_cases)
next
  case False
  then have "0 < avgGap intakes" using assms by simp
  then have "\<not> hoursSinceLastIntake now intakes / avgGap intakes < 0"
    using assms by (simp add: divide_less_0_iff)
  then show ?thesis using False by (simp add: timeFactor_cases Let_def)
qed

lemma probability_Num:
  assumes "timeFactor now intakes = Num t"
  shows "\<exists>p. clampedProbability tz now intakes = Num p \<and> 0.05 \<le> p \<and> p \<le> 0.95
     \<and> p = min 0.95 (max 0.05 (1 / (1 + exp (- 6 *
             (hourFactor tz now intakes * 0.40 + dayFactor tz now intakes * 0.15 + t * 0.25
              + contextFactor intakes * 0.10 + trendFactor now intakes * 0.10 - 0.5)))))"
proof -
  let ?b = "hourFactor tz now intakes * 0.40 + dayFactor tz now intakes * 0.15 + t * 0.25
              + contextFactor intakes * 0.10 + trendFactor now intakes * 0.10"
  have b: "baseProbability tz now intakes = Num ?b"
    by (simp add: baseProbability_def assms)
  have "1 + exp (- 6 * (?b - 0.5)) \<noteq> 0"
    using exp_gt_zero [of "- 6 * (?b - 0.5)"] by linarith
  then have sm: "smoothedProbability tz now intakes = Num (1 / (1 + exp (- 6 * (?b - 0.5))))"
    by (simp add: smoothedProbability_def b js_sub_def)
  define q where "q = 1 / (1 + exp (- 6 * (?b - 0.5)))"
  have cl: "clampedProbability tz now intakes = Num (min 0.95 (max 0.05 q))"
    unfolding clampedProbability_def sm q_def by simp
  have "0.05 \<le> min 0.95 (max 0.05 q)" "min 0.95 (max 0.05 q) \<le> 0.95"
    by simp_all
  then show ?thesis
    using cl unfolding q_def by blast
qed

lemma hourly_events_window:
  "now \<le> 14 * 86400000 \<Longrightarrow> window_intakes now ''u1'' (hourly_events n) = hourly_events n"
proof -
  assume a: "now \<le> 14 * 86400000"
  have "trailing_events now ''u1'' (hourly_events n) = hourly_events n"
    using a by (auto simp: trailing_events_def hourly_events_def MS_PER_DAY_def filter_map o_def)
  moreover have "sorted (map loggedAt (hourly_events n))"
    by (auto simp: hourly_events_def o_def sorted_map intro!: sorted_wrt_mono_rel [OF _ sorted_upt])
  ultimately show ?thesis
    by (simp add: window_intakes_def sort_key_id_if_sorted)
qed

lemma hourly_events_nth: "k < n \<Longrightarrow> loggedAt (hourly_events n ! k) = int k * 3600000"
  by (simp add: hourly_events_def)

lemma hourly_events_gaps: "length (gaps (hourly_events n)) = n - 1"
proof -
  have "diff_hours (loggedAt (hourly_events n ! k)) (loggedAt (hourly_events n ! (k - 1))) = 1"
    if "k \<in> set [1..<n]" for k
  proof -
    have "k < n" "k - 1 < n" "1 \<le> k" using that by auto
    then show ?thesis
      by (simp add: hourly_events_nth diff_hours_def MS_PER_HOUR_def of_nat_diff algebra_simps)
  qed
  then have "filter (\<lambda>gap. gap < 24)
       (map (\<lambda>k. diff_hours (loggedAt (hourly_events n ! k)) (loggedAt (hourly_events n ! (k - 1))))
          [1..<n])
     = map (\<lambda>k. diff_hours (loggedAt (hourly_events n ! k)) (loggedAt (hourly_events n ! (k - 1))))
          [1..<n]"
    by (intro filter_True) auto
  then show ?thesis
    by (simp add: gaps_def hourly_events_def)
qed

lemma last_window_in_trailing:
  assumes "trailing_events now uid docs \<noteq> []"
  shows "last (window_intakes now uid docs) \<in> set (trailing_events now uid docs)"
proof -
  have "window_intakes now uid docs \<noteq> []"
    using assms by (metis length_window_intakes length_0_conv)
  then have "last (window_intakes now uid docs) \<in> set (window_intakes now uid docs)"
    by (rule last_in_set)
  then show ?thesis by (simp add: window_intakes_def)
qed

lemma fold_max_eq:
  "\<forall>x \<in> set arr. x \<le> m \<Longrightarrow> v \<le> m \<Longrightarrow> m \<in> set arr \<or> m = v \<Longrightarrow> fold max arr v = (m::real)"
proof (induction arr arbitrary: v)
  case Nil
  then show ?case by simp
next
  case (Cons a arr)
  have "fold max (a # arr) v = fold max arr (max a v)" by simp
  also have "\<dots> = m"
  proof (rule Cons.IH)
    show "\<forall>x \<in> set arr. x \<le> m" using Cons.prems(1) by simp
    show "max a v \<le> m" using Cons.prems(1,2) by simp
    show "m \<in> set arr \<or> m = max a v" using Cons.prems by (auto simp: max_def)
  qed
  finally show ?case .
qed

lemma hourlyWeights_nth:
  "k < 24 \<Longrightarrow> hourlyWeights tz xs ! k
     = sum_list (map puffs (filter (\<lambda>i. hour_of tz (loggedAt i) = k) xs))"
  by (simp add: hourlyWeights_def nth_buckets)

lemma dayWeights_nth:
  "k < 7 \<Longrightarrow> dayWeights tz xs ! k
     = sum_list (map puffs (filter (\<lambda>i. day_of tz (loggedAt i) = k) xs))"
  by (simp add: dayWeights_def nth_buckets)

lemma length_hourlyWeights: "length (hourlyWeights tz xs) = 24"
  by (simp add: hourlyWeights_def length_buckets)

lemma length_dayWeights: "length (dayWeights tz xs) = 7"
  by (simp add: dayWeights_def length_buckets)

lemma hourFactor_eq:
  "hourFactor tz now xs
     = hourlyWeights tz xs ! hour_of tz now / Math_max_list (hourlyWeights tz xs) 1"
  by (simp add: hourFactor_def Let_def length_hourlyWeights hour_of_less)

lemma dayFactor_eq:
  "dayFactor tz now xs = dayWeights tz xs ! day_of tz now / Math_max_list (dayWeights tz xs) 1"
  by (simp add: dayFactor_def Let_def length_dayWeights day_of_less)

lemma exp_3_gt_19: "19 < exp (3::real)"
proof -
  have "(41 / 32 :: real) \<le> exp (1 / 4)"
    using exp_lower_Taylor_quadratic [of "1 / 4 :: real"] by (simp add: power2_eq_square)
  then have "(41 / 32 :: real) ^ 12 \<le> exp (1 / 4) ^ 12"
    by (intro power_mono) simp_all
  also have "exp (1 / 4 :: real) ^ 12 = exp 3"
    using exp_of_nat_mult [of 12 "1 / 4 :: real"] by simp
  finally show ?thesis by (simp add: power_divide)
qed

lemma peak_window: "window_intakes peak_now ''u1'' peak_events = peak_events"
proof -
  have "trailing_events peak_now ''u1'' peak_events = peak_events"
    by (simp add: trailing_events_def peak_events_def peak_now_def MS_PER_DAY_def)
  moreover have "sorted (map loggedAt peak_events)"
    by (simp add: peak_events_def)
  ultimately show ?thesis
    by (simp add: window_intakes_def sort_key_id_if_sorted)
qed

lemma peak_hours: "map (\<lambda>i. hour_of 0 (loggedAt i)) peak_events = [10, 10, 10, 10, 10]"
  "hour_of 0 peak_now = 10"
  by (simp_all add: peak_events_def peak_now_def hour_of_def MS_PER_HOUR_def)

lemma peak_days: "map (\<lambda>i. day_of 0 (loggedAt i)) peak_events = [3, 0, 0, 0, 0]"
  "day_of 0 peak_now = 0"
  by (simp_all add: peak_events_def peak_now_def day_of_def calendarDay_def MS_PER_DAY_def)

lemma peak_hourly: "k < 24 \<Longrightarrow> hourlyWeights 0 peak_events ! k = (if k = 10 then 41 else 0)"
  by (simp add: hourlyWeights_nth) (simp add: peak_events_def hour_of_def MS_PER_HOUR_def)

lemma peak_daily: "k < 7 \<Longrightarrow> dayWeights 0 peak_events ! k = (if k = 0 then 40 else if k = 3 then 1 else 0)"
  by (simp add: dayWeights_nth)
     (simp add: peak_events_def day_of_def calendarDay_def MS_PER_DAY_def)

lemma peak_hourFactor: "hourFactor 0 peak_now peak_events = 1"
proof -
  have "\<forall>x \<in> set (hourlyWeights 0 peak_events). x \<le> 41"
    by (auto simp: in_set_conv_nth length_hourlyWeights peak_hourly)
  moreover have "41 \<in> set (hourlyWeights 0 peak_events)"
    using peak_hourly [of 10] nth_mem [of 10 "hourlyWeights 0 peak_events"]
    by (simp add: length_hourlyWeights)
  ultimately have "Math_max_list (hourlyWeights 0 peak_events) 1 = 41"
    unfolding Math_max_list_def by (intro fold_max_eq) auto
  then show ?thesis
    by (simp add: hourFactor_eq peak_hours peak_hourly)
qed

lemma peak_dayFactor: "dayFactor 0 peak_now peak_events = 1"
proof -
  have "\<forall>x \<in> set (dayWeights 0 peak_events). x \<le> 40"
    by (auto simp: in_set_conv_nth length_dayWeights peak_daily)
  moreover have "40 \<in> set (dayWeights 0 peak_events)"
    using peak_daily [of 0] nth_mem [of 0 "dayWeights 0 peak_events"]
    by (simp add: length_dayWeights)
  ultimately have "Math_max_list (dayWeights 0 peak_events) 1 = 40"
    unfolding Math_max_list_def by (intro fold_max_eq) auto
  then show ?thesis
    by (simp add: dayFactor_eq peak_days peak_daily)
qed

lemma peak_contextFactor: "contextFactor peak_events = 1"
  by (simp add: contextFactor_def contextCounts_def peak_events_def count_key_def Let_def)

lemma peak_trendFactor: "trendFactor peak_now peak_events = 1"
  by (simp add: trendFactor_def peak_events_def peak_now_def MS_PER_DAY_def Let_def)

lemma peak_gaps: "gaps peak_events = [1 / 12, 1 / 12, 1 / 12]"
proof -
  have "[1..<5] = [1, 2, 3, 4]" by (simp add: upt_rec)
  then show ?thesis
    by (simp add: gaps_def peak_events_def diff_hours_def MS_PER_HOUR_def)
qed

lemma peak_timeFactor: "timeFactor peak_now peak_events = Num 1"
proof -
  have g: "avgGap peak_events = 1 / 12"
    by (simp add: avgGap_def peak_gaps)
  have h: "hoursSinceLastIntake peak_now peak_events = 1 / 4"
    by (simp add: hoursSinceLastIntake_def peak_events_def peak_now_def diff_hours_def MS_PER_HOUR_def)
  have "1 \<le> (3::real) powr 1.5"
    by (rule ge_one_powr_ge_zero) simp_all
  then show ?thesis
    by (simp add: timeFactor_cases g h Let_def)
qed

lemma peak_probability: "clampedProbability 0 peak_now peak_events = Num 0.95"
proof -
  from probability_Num [OF peak_timeFactor, of 0] obtain p where
    p: "clampedProbability 0 peak_now peak_events = Num p"
       "p = min 0.95 (max 0.05 (1 / (1 + exp (- 6 *
             (hourFactor 0 peak_now peak_events * 0.40 + dayFactor 0 peak_now peak_events * 0.15
              + 1 * 0.25 + contextFactor peak_events * 0.10
              + trendFactor peak_now peak_events * 0.10 - 0.5)))))"
    by blast
  have e: "exp (- 3 :: real) < 1 / 19"
    using exp_3_gt_19 by (simp add: exp_minus field_simps)
  have pos: "0 < 1 + exp (- 3 :: real)"
    using exp_gt_zero [of "- 3 :: real"] by linarith
  have "0.95 * (1 + exp (- 3 :: real)) < 1"
    using e by simp
  then have "(0.95::real) < 1 / (1 + exp (- 3))"
    using pos by (simp only: pos_less_divide_eq)
  then have "p = 0.95"
    unfolding p(2) peak_hourFactor peak_dayFactor peak_contextFactor peak_trendFactor
    by simp
  then show ?thesis using p(1) by simp
qed

lemma probability_NaN:
  assumes "timeFactor now intakes = NaN"
  shows "clampedProbability tz now intakes = NaN"
  by (simp add: clampedProbability_def smoothedProbability_def baseProbability_def js_sub_def assms)

lemma predictCraving_future_event:
  "length (trailing_events early_now ''u1'' peak_events) = 5
   \<and> loggedAt (last peak_events) > early_now
   \<and> map_sum id probability (predictCraving 0 early_now ''u1'' (Inr peak_events)) = Inr (Some NaN)"
proof -
  have tr: "trailing_events early_now ''u1'' peak_events = peak_events"
    by (simp add: trailing_events_def peak_events_def early_now_def MS_PER_DAY_def)
  have "sorted (map loggedAt peak_events)"
    by (simp add: peak_events_def)
  then have w: "window_intakes early_now ''u1'' peak_events = peak_events"
    by (simp add: window_intakes_def tr sort_key_id_if_sorted)
  have n: "length (trailing_events early_now ''u1'' peak_events) = 5"
    unfolding tr by (simp add: peak_events_def)
  have g: "avgGap peak_events = 1 / 12"
    by (simp add: avgGap_def peak_gaps)
  have h: "hoursSinceLastIntake early_now peak_events = - (1 / 36)"
    by (simp add: hoursSinceLastIntake_def peak_events_def early_now_def diff_hours_def MS_PER_HOUR_def)
  have "timeFactor early_now peak_events = NaN"
    by (simp add: timeFactor_cases g h Let_def)
  then have p: "clampedProbability 0 early_now peak_events = NaN"
    by (rule probability_NaN)
  have "\<not> length (trailing_events early_now ''u1'' peak_events) < 5" using n by simp
  from predictCraving_fields [OF this, of 0] obtain r where
    "predictCraving 0 early_now ''u1'' (Inr peak_events) = Inr r"
    "probability r = Some (Math_round (js_mul (clampedProbability 0 early_now peak_events) (Num 100)))"
    unfolding w by blast
  then show ?thesis
    using n by (simp add: p) (simp add: peak_events_def early_now_def)
qed

section \<open>Lemmas: the call graph of the gamification module\<close>

lemma getOrCreateStreak_throws: "getOrCreateStreak coll uid = Inl (ReferenceError ''odId'')"
  by (simp add: getOrCreateStreak_def lookup_identifier_def function_scope_def module_scope_def
        and_then_def)

lemma closed_reach:
  assumes "(f, g) \<in> calls\<^sup>*" and "f \<in> S" and "\<forall>a \<in> S. set (callees a) \<subseteq> S"
  shows "g \<in> S"
  using assms
proof (induction rule: rtrancl_induct)
  case base
  then show ?case by simp
next
  case (step y z)
  then have "y \<in> S" by simp
  moreover have "z \<in> set (callees y)" using step.hyps(2) by (simp add: calls_def)
  ultimately show ?case using step.prems(2) by blast
qed

lemma with_fixed_helper_closed: "\<forall>a \<in> with_fixed_helper. set (callees a) \<subseteq> with_fixed_helper"
  by (simp add: with_fixed_helper_def)

lemma leaderboard_closed: "\<forall>a \<in> {GetLeaderboard}. set (callees a) \<subseteq> {GetLeaderboard}"
  by simp

lemma exports_split:
  "f \<in> set module_exports \<Longrightarrow> f = GetLeaderboard \<or> f \<in> with_fixed_helper"
  by (auto simp: module_exports_def with_fixed_helper_def)

lemma broken_unreachable:
  assumes "f \<in> set module_exports"
  shows "(f, GetOrCreateStreak) \<notin> calls\<^sup>*"
proof
  assume r: "(f, GetOrCreateStreak) \<in> calls\<^sup>*"
  from exports_split [OF assms] show False
  proof
    assume "f = GetLeaderboard"
    then have "GetOrCreateStreak \<in> {GetLeaderboard}"
      using closed_reach [OF r _ leaderboard_closed] by blast
    then show False by simp
  next
    assume "f \<in> with_fixed_helper"
    then have "GetOrCreateStreak \<in> with_fixed_helper"
      using closed_reach [OF r _ with_fixed_helper_closed] by blast
    then show False by (simp add: with_fixed_helper_def)
  qed
qed

lemma fixed_helper_only:
  assumes "f \<in> with_fixed_helper"
  shows "only_through_fixed f"
  unfolding only_through_fixed_def
proof (intro allI impI)
  fix g
  assume a: "(f, g) \<in> calls\<^sup>* \<and> queries_Streak g"
  then have "g \<in> with_fixed_helper"
    using closed_reach [OF _ assms with_fixed_helper_closed] by blast
  then show "g = GetOrCreateStreakFixed"
    using a by (auto simp: with_fixed_helper_def)
qed

lemma unlockAchievement_error:
  "unlockAchievement uid aid strk ua = Inl e \<Longrightarrow> e = ValidationError ''achievementId''"
  by (auto simp: unlockAchievement_def UserAchievement_create_def
      split: option.splits sum.splits if_splits prod.splits)

section \<open>A run of the service\<close>

text \<open>
  Two logs of a new user on one calendar day: the first unlocks "First Step" and leaves 60
  points, the second adds its 10 points only; the streak is 1 and two logs are counted.
\<close>

lemma catalog_checks_step:
  "foldl (unlock_step uid) st catalog_checks =
     unlock_step uid (unlock_step uid (unlock_step uid (unlock_step uid (unlock_step uid
       (unlock_step uid (unlock_step uid (unlock_step uid (unlock_step uid st
          (\<lambda>s. currentStreak s \<ge> 1, FIRST_DAY)) (\<lambda>s. currentStreak s \<ge> 7, WEEK_WARRIOR))
          (\<lambda>s. currentStreak s \<ge> 30, MONTH_MASTER)) (\<lambda>s. totalLogsCount s \<ge> 10, LOGGER_10))
          (\<lambda>s. totalLogsCount s \<ge> 50, LOGGER_50)) (\<lambda>s. totalLogsCount s \<ge> 100, LOGGER_100))
          (\<lambda>s. totalMoneySaved s \<ge> 10, SAVER_10)) (\<lambda>s. totalMoneySaved s \<ge> 50, SAVER_50))
          (\<lambda>s. totalMoneySaved s \<ge> 100, SAVER_100)"
  by (simp add: catalog_checks_def)

lemma unlock_step_skip: "\<not> c s \<Longrightarrow> unlock_step uid (s, ua, new) (c, a) = (s, ua, new)"
  by (simp add: unlock_step_def)

lemma unlock_step_have:
  "(uid, ach_id a) \<in> set ua \<Longrightarrow> unlock_step uid (s, ua, new) (c, a) = (s, ua, new)"
  by (simp add: unlock_step_def)

lemma unlock_step_new:
  "c s \<Longrightarrow> (uid, ach_id a) \<notin> set ua \<Longrightarrow>
   unlock_step uid (s, ua, new) (c, a) = (addXP (xp a) s, ua @ [(uid, ach_id a)], new @ [a])"
  by (simp add: unlock_step_def)

lemma level_of_xp_below_100: "x < 100 \<Longrightarrow> level_of_xp x = 1"
  using level_of_xp_iff [of x 0] by simp

lemma updateStreak_frame:
  "totalXP (updateStreak tz now d s) = totalXP s"
  "level (updateStreak tz now d s) = level s"
  "totalLogsCount (updateStreak tz now d s) = totalLogsCount s"
  "totalMoneySaved (updateStreak tz now d s) = totalMoneySaved s"
  by (simp_all add: updateStreak_def Let_def)

lemma two_logs_same_day:
  "\<exists>r1 d1 r2 d2 s2.
      updateStreakOnLog 0 86401000 ''u1'' \<lparr> db_streaks = Map.empty, db_userAchievements = [] \<rparr>
        = Inr (r1, d1)
    \<and> updateStreakOnLog 0 86409000 ''u1'' d1 = Inr (r2, d2)
    \<and> res_newAchievements r1 = [FIRST_DAY] \<and> res_totalXP r1 = 60 \<and> res_streak r1 = (1, 1)
    \<and> res_newAchievements r2 = [] \<and> res_totalXP r2 = 70 \<and> res_streak r2 = (1, 1)
    \<and> res_level r2 = 1
    \<and> db_streaks d2 ''u1'' = Some s2 \<and> totalLogsCount s2 = 2 \<and> currentStreak s2 = 1
    \<and> db_userAchievements d2 = [(''u1'', ''first_day'')]"
proof -
  define a where "a = updateStreak 0 86401000 True
      (Streak_defaults\<lparr> totalLogsCount := totalLogsCount Streak_defaults + 1 \<rparr>)"
  have a: "currentStreak a = 1" "longestStreak a = 1" "totalLogsCount a = 1"
    "totalMoneySaved a = 0" "totalXP a = 0" "lastActiveDate a = Some 86400000"
    unfolding a_def
    by (simp_all add: updateStreak_def Streak_defaults_def Let_def setHours0_def calendarDay_def
          MS_PER_DAY_def)
  define s1 where "s1 = addXP 50 (addXP 10 a)"
  have c1: "checkAchievements ''u1'' (addXP 10 a) [] = Inr (s1, [(''u1'', ''first_day'')], [FIRST_DAY])"
  proof -
    have "unlock_step ''u1'' (addXP 10 a, [], []) (\<lambda>s. currentStreak s \<ge> 1, FIRST_DAY)
            = (s1, [(''u1'', ''first_day'')], [FIRST_DAY])"
      unfolding s1_def
      by (subst unlock_step_new) (simp_all add: addXP_fields a FIRST_DAY_def)
    then show ?thesis
      unfolding checkAchievements_eq catalog_checks_step
      by (simp add: unlock_step_skip s1_def addXP_fields a)
  qed
  have s1: "currentStreak s1 = 1" "longestStreak s1 = 1" "totalLogsCount s1 = 1"
    "totalMoneySaved s1 = 0" "totalXP s1 = 60" "lastActiveDate s1 = Some 86400000"
    by (simp_all add: s1_def addXP_fields totalXP_addXP a)
  define b where "b = updateStreak 0 86409000 True (s1\<lparr> totalLogsCount := totalLogsCount s1 + 1 \<rparr>)"
  have today: "activeToday 0 86409000 (s1\<lparr> totalLogsCount := totalLogsCount s1 + 1 \<rparr>)"
    by (simp add: activeToday_def s1 setHours0_def calendarDay_def MS_PER_DAY_def)
  have b: "currentStreak b = 1" "longestStreak b = 1" "totalLogsCount b = 2"
    "totalMoneySaved b = 0" "totalXP b = 60"
    using today unfolding b_def
    by (simp_all add: currentStreak_updateStreak longestStreak_updateStreak updateStreak_frame s1)
  define s2 where "s2 = addXP 10 b"
  have c2: "checkAchievements ''u1'' s2 [(''u1'', ''first_day'')] = Inr (s2, [(''u1'', ''first_day'')], [])"
  proof -
    have "unlock_step ''u1'' (s2, [(''u1'', ''first_day'')], []) (\<lambda>s. currentStreak s \<ge> 1, FIRST_DAY)
            = (s2, [(''u1'', ''first_day'')], [])"
      by (subst unlock_step_have) (simp_all add: FIRST_DAY_def)
    then show ?thesis
      unfolding checkAchievements_eq catalog_checks_step
      by (simp add: unlock_step_skip s2_def addXP_fields b)
  qed
  have r1: "updateStreakOnLog 0 86401000 ''u1'' \<lparr> db_streaks = Map.empty, db_userAchievements = [] \<rparr>
      = Inr (\<lparr> res_streak = (1, 1), res_totalXP = 60, res_level = level s1,
                res_newAchievements = [FIRST_DAY] \<rparr>,
             \<lparr> db_streaks = [''u1'' \<mapsto> s1], db_userAchievements = [(''u1'', ''first_day'')] \<rparr>)"
    unfolding updateStreakOnLog_def
    by (simp add: getOrCreateStreakFixed_def Let_def a_def [symmetric] c1 and_then_def a s1)
  have r2: "updateStreakOnLog 0 86409000 ''u1''
        \<lparr> db_streaks = [''u1'' \<mapsto> s1], db_userAchievements = [(''u1'', ''first_day'')] \<rparr>
      = Inr (\<lparr> res_streak = (1, 1), res_totalXP = 70, res_level = level s2,
                res_newAchievements = [] \<rparr>,
             \<lparr> db_streaks = [''u1'' \<mapsto> s2], db_userAchievements = [(''u1'', ''first_day'')] \<rparr>)"
    unfolding updateStreakOnLog_def
    by (simp add: getOrCreateStreakFixed_def Let_def b_def [symmetric] s2_def [symmetric] c2
          and_then_def b) (simp add: s2_def totalXP_addXP b)
  have l2: "level s2 = 1"
    by (simp add: s2_def level_addXP b level_of_xp_below_100)
  show ?thesis
    unfolding r1
    by (simp add: r2 l2) (simp add: s2_def addXP_fields b)
qed

section \<open>The streak tracker\<close>



text \<open>
  Claim C8. \<open>longestStreak \<ge> currentStreak\<close> is kept by the operations on a streak record,
  and \<open>longestStreak\<close> never decreases: after \<open>updateStreak\<close> it is the maximum of its old
  value and the new \<open>currentStreak\<close>, so the invariant holds after every update whatever
  the record was; a new record satisfies it; adding experience points, recomputing the
  level, counting a log and storing the money saved leave both counters alone, and so do
  \<open>checkAchievements\<close> and the whole of \<open>updateStreakOnLog\<close> after its update.
\<close>

theorem updateStreak_longest:
  "longestStreak (updateStreak tz now didLog s)
     = max (longestStreak s) (currentStreak (updateStreak tz now didLog s))
   \<and> streak_invariant (updateStreak tz now didLog s)
   \<and> longestStreak (updateStreak tz now didLog s) \<ge> longestStreak s
   \<and> streak_invariant Streak_defaults
   \<and> streak_invariant (addXP amount s) = streak_invariant s
   \<and> longestStreak (addXP amount s) = longestStreak s
   \<and> streak_invariant (calculateLevel s) = streak_invariant s
   \<and> longestStreak (calculateLevel s) = longestStreak s
   \<and> streak_invariant (s\<lparr> totalLogsCount := n \<rparr>) = streak_invariant s
   \<and> streak_invariant (s\<lparr> totalMoneySaved := m \<rparr>) = streak_invariant s
   \<and> (\<exists>s1 ua1 new1. checkAchievements uid s ua = Inr (s1, ua1, new1)
         \<and> currentStreak s1 = currentStreak s \<and> longestStreak s1 = longestStreak s)
   \<and> (\<exists>r d' s'. updateStreakOnLog tz now uid d = Inr (r, d') \<and> db_streaks d' uid = Some s'
         \<and> streak_invariant s'
         \<and> longestStreak s' \<ge> longestStreak (fst (getOrCreateStreakFixed (db_streaks d) uid)))"
proof -
  have a: "longestStreak (updateStreak tz now didLog s)
     = max (longestStreak s) (currentStreak (updateStreak tz now didLog s))"
    by (rule longestStreak_updateStreak)
  have b: "streak_invariant (updateStreak tz now didLog s)"
    "longestStreak (updateStreak tz now didLog s) \<ge> longestStreak s"
    using a by (simp_all add: streak_invariant_def)
  have c: "streak_invariant Streak_defaults"
    by (simp add: streak_invariant_def Streak_defaults_def)
  have e: "streak_invariant (addXP amount s) = streak_invariant s"
    "longestStreak (addXP amount s) = longestStreak s"
    "streak_invariant (calculateLevel s) = streak_invariant s"
    "longestStreak (calculateLevel s) = longestStreak s"
    "streak_invariant (s\<lparr> totalLogsCount := n \<rparr>) = streak_invariant s"
    "streak_invariant (s\<lparr> totalMoneySaved := m \<rparr>) = streak_invariant s"
    by (simp_all add: streak_invariant_def addXP_fields calculateLevel_def)
  have f: "\<exists>s1 ua1 new1. checkAchievements uid s ua = Inr (s1, ua1, new1)
         \<and> currentStreak s1 = currentStreak s \<and> longestStreak s1 = longestStreak s"
    using checkAchievements_result [of uid s ua] by blast
  have g: "\<exists>r d' s'. updateStreakOnLog tz now uid d = Inr (r, d') \<and> db_streaks d' uid = Some s'
         \<and> streak_invariant s'
         \<and> longestStreak s' \<ge> longestStreak (fst (getOrCreateStreakFixed (db_streaks d) uid))"
    using updateStreakOnLog_result [of tz now uid d] by blast
  show ?thesis using a b c e f g by blast
qed

text \<open>
  Claim C5. The level is a function of \<open>totalXP\<close> alone, the floor of the square root of
  \<open>totalXP / 100\<close> plus one, after \<open>calculateLevel\<close>, after \<open>addXP\<close> (in whatever order
  points were added) and in the record that \<open>updateStreakOnLog\<close> stores and reports; a new
  record (0 points, level 1) agrees with it. 0 points give level 1, 100 give level 2, 400 give level 3; in general level
  \<open>k + 1\<close> is held exactly from \<open>100 k\<^sup>2\<close> up to, not including, \<open>100 (k + 1)\<^sup>2\<close> points.
  \<open>xpForNextLevel\<close> returns the square of the level times 100.
\<close>

theorem level_formula:
  "level (calculateLevel s) = \<lfloor>sqrt (real (totalXP s) / 100)\<rfloor> + 1
   \<and> totalXP (addXP amount s) = totalXP s + amount
   \<and> level (addXP amount s) = \<lfloor>sqrt (real (totalXP (addXP amount s)) / 100)\<rfloor> + 1
   \<and> level (addXP amount s) = level_of_xp (totalXP s + amount)
   \<and> level (addXP a (addXP b s)) = level (addXP b (addXP a s))
   \<and> level_of_xp 0 = 1 \<and> level_of_xp 100 = 2 \<and> level_of_xp 400 = 3
   \<and> level Streak_defaults = level_of_xp (totalXP Streak_defaults)
   \<and> (level_of_xp x = int k + 1 \<longleftrightarrow> 100 * k ^ 2 \<le> x \<and> x < 100 * (k + 1) ^ 2)
   \<and> xpForNextLevel s = (level s) ^ 2 * 100
   \<and> (\<exists>r d' s'. updateStreakOnLog tz now uid d = Inr (r, d') \<and> db_streaks d' uid = Some s'
         \<and> level s' = level_of_xp (totalXP s') \<and> res_level r = level s'
         \<and> res_totalXP r = totalXP s')"
proof -
  have a: "level (calculateLevel s) = \<lfloor>sqrt (real (totalXP s) / 100)\<rfloor> + 1"
    by (simp add: calculateLevel_def)
  have b: "level (addXP amount s) = \<lfloor>sqrt (real (totalXP (addXP amount s)) / 100)\<rfloor> + 1"
    by (simp add: addXP_def calculateLevel_def)
  have c: "level Streak_defaults = level_of_xp (totalXP Streak_defaults)"
    by (simp add: Streak_defaults_def level_of_xp_0)
  have d: "\<exists>r d' s'. updateStreakOnLog tz now uid d = Inr (r, d') \<and> db_streaks d' uid = Some s'
         \<and> level s' = level_of_xp (totalXP s') \<and> res_level r = level s'
         \<and> res_totalXP r = totalXP s'"
    using updateStreakOnLog_result [of tz now uid d] unfolding level_consistent_def by blast
  have e: "level (addXP a (addXP b s)) = level (addXP b (addXP a s))"
    by (simp add: level_addXP totalXP_addXP add.commute add.left_commute)
  show ?thesis
    using a b c d e totalXP_addXP level_addXP level_of_xp_0 level_of_xp_100 level_of_xp_400
      level_of_xp_iff [of x k] xpForNextLevel_eq
    by blast
qed

section \<open>The achievement engine\<close>



section \<open>The analytics aggregator\<close>





section \<open>The prediction engine\<close>

text \<open>
  Claim C6. With fewer than 5 events of the user in the trailing 14 days, \<open>predictCraving\<close>
  returns (and does not throw) the "not enough data" result: \<open>probability\<close> is \<open>null\<close>,
  \<open>confidence\<close> is \<open>low\<close>, and the object has no factor breakdown and no risk level.
\<close>

theorem predictCraving_not_enough_data:
  "length (trailing_events now uid docs) < 5 \<Longrightarrow>
   predictCraving tz now uid (Inr docs) = Inr not_enough_data
   \<and> probability not_enough_data = None \<and> confidence not_enough_data = ''low''
   \<and> factors not_enough_data = None \<and> riskLevel not_enough_data = None"
  by (simp add: predictCraving_few) (simp add: not_enough_data_def)

theorem predictCraving_not_enough_data_witness:
  "length (trailing_events (7 * 86400000) ''u1'' example_day) = 4
   \<and> predictCraving 0 (7 * 86400000) ''u1'' (Inr example_day) = Inr not_enough_data
   \<and> probability not_enough_data = None \<and> confidence not_enough_data = ''low''
   \<and> factors not_enough_data = None"
proof -
  have n: "length (trailing_events (7 * 86400000) ''u1'' example_day) = 4"
    by (simp add: trailing_events_def example_day_def MS_PER_DAY_def)
  then have "length (trailing_events (7 * 86400000) ''u1'' example_day) < 5" by simp
  from predictCraving_not_enough_data [OF this, of 0] n show ?thesis by simp
qed

text \<open>
  Claim C7, as the code has it. The confidence is \<open>high\<close> exactly when the window holds
  more than 50 events and more than 20 gaps under 24 hours, \<open>low\<close> exactly when it holds
  fewer than 15 events, and \<open>medium\<close> otherwise.
\<close>

theorem predictCraving_confidence:
  "\<exists>r. predictCraving tz now uid (Inr docs) = Inr r
     \<and> (confidence r = ''high'' \<longleftrightarrow>
          length (trailing_events now uid docs) > 50 \<and> length (gaps (window_intakes now uid docs)) > 20)
     \<and> (confidence r = ''low'' \<longleftrightarrow> length (trailing_events now uid docs) < 15)
     \<and> (confidence r = ''medium'' \<longleftrightarrow>
          15 \<le> length (trailing_events now uid docs)
          \<and> (length (trailing_events now uid docs) \<le> 50 \<or> length (gaps (window_intakes now uid docs)) \<le> 20))"
proof (cases "length (trailing_events now uid docs) < 5")
  case True
  then show ?thesis
    by (simp add: predictCraving_few not_enough_data_def)
next
  case False
  from predictCraving_fields [OF False, of tz] obtain r where
    r: "predictCraving tz now uid (Inr docs) = Inr r"
    and c: "confidence r =
          (if length (window_intakes now uid docs) > 50 \<and> length (gaps (window_intakes now uid docs)) > 20
           then ''high''
           else if length (window_intakes now uid docs) < 15 then ''low'' else ''medium'')"
    by blast
  show ?thesis
    using r c by (auto simp: length_window_intakes)
qed

text \<open>
  The claim as stated (\<open>high\<close> from 50 events and 20 gaps on) fails at exactly 50 events
  one hour apart, with 49 qualifying gaps: the confidence is \<open>medium\<close>.
\<close>

theorem predictCraving_confidence_counterexample:
  "length (trailing_events (50 * 3600000) ''u1'' (hourly_events 50)) = 50
   \<and> length (gaps (window_intakes (50 * 3600000) ''u1'' (hourly_events 50))) = 49
   \<and> map_sum id confidence (predictCraving 0 (50 * 3600000) ''u1'' (Inr (hourly_events 50)))
       = Inr ''medium''"
proof -
  let ?now = "50 * 3600000 :: int"
  have w: "window_intakes ?now ''u1'' (hourly_events 50) = hourly_events 50"
    by (rule hourly_events_window) simp
  have n: "length (trailing_events ?now ''u1'' (hourly_events 50)) = 50"
    using length_window_intakes [of ?now "''u1''" "hourly_events 50"] w
    by (simp add: hourly_events_def)
  have g: "length (gaps (window_intakes ?now ''u1'' (hourly_events 50))) = 49"
    unfolding w by (simp add: hourly_events_gaps)
  have "\<not> length (trailing_events ?now ''u1'' (hourly_events 50)) < 5" using n by simp
  from predictCraving_fields [OF this, of 0] obtain r where
    "predictCraving 0 ?now ''u1'' (Inr (hourly_events 50)) = Inr r" "confidence r = ''medium''"
    using n g by (auto simp: length_window_intakes)
  then show ?thesis using n g by simp
qed

text \<open>
  Claim C1, as the code has it. With at least 5 events of the user in the trailing 14 days,
  all of them logged before the current instant, the time factor is a number in \<open>[0, 1]\<close>,
  the probability is the logistic function of \<open>6 (base - 0.5)\<close> clamped to
  \<open>[0.05, 0.95]\<close>, and the \<open>probability\<close> that \<open>predictCraving\<close> returns is that value as
  a percentage, \<open>Math.round(100 p)\<close>: an integer from 5 to 95.
\<close>

theorem predictCraving_probability_range:
  assumes "5 \<le> length (trailing_events now uid docs)"
    and "\<forall>i \<in> set (trailing_events now uid docs). loggedAt i < now"
  shows "\<exists>p t r. clampedProbability tz now (window_intakes now uid docs) = Num p
     \<and> 0.05 \<le> p \<and> p \<le> 0.95
     \<and> timeFactor now (window_intakes now uid docs) = Num t \<and> 0 \<le> t \<and> t \<le> 1
     \<and> p = min 0.95 (max 0.05 (1 / (1 + exp (- 6 *
             (hourFactor tz now (window_intakes now uid docs) * 0.40
              + dayFactor tz now (window_intakes now uid docs) * 0.15 + t * 0.25
              + contextFactor (window_intakes now uid docs) * 0.10
              + trendFactor now (window_intakes now uid docs) * 0.10 - 0.5)))))
     \<and> predictCraving tz now uid (Inr docs) = Inr r
     \<and> probability r = Some (Num (of_int \<lfloor>p * 100 + 1 / 2\<rfloor>))
     \<and> 5 \<le> \<lfloor>p * 100 + 1 / 2\<rfloor> \<and> \<lfloor>p * 100 + 1 / 2\<rfloor> \<le> 95"
proof -
  let ?w = "window_intakes now uid docs"
  have ne: "trailing_events now uid docs \<noteq> []" using assms(1) by auto
  have "loggedAt (last ?w) < now"
    using last_window_in_trailing [OF ne] assms(2) by blast
  then have h: "0 < hoursSinceLastIntake now ?w"
    by (simp add: hoursSinceLastIntake_def diff_hours_def MS_PER_HOUR_def)
  have g: "0 \<le> avgGap ?w"
    by (rule avgGap_nonneg) (rule sorted_window_intakes)
  from timeFactor_Num [OF h g] obtain t where
    t: "timeFactor now ?w = Num t" "0 \<le> t" "t \<le> 1" by blast
  from probability_Num [OF t(1), of tz] obtain p where
    p: "clampedProbability tz now ?w = Num p" "0.05 \<le> p" "p \<le> 0.95"
      "p = min 0.95 (max 0.05 (1 / (1 + exp (- 6 *
             (hourFactor tz now ?w * 0.40 + dayFactor tz now ?w * 0.15 + t * 0.25
              + contextFactor ?w * 0.10 + trendFactor now ?w * 0.10 - 0.5)))))"
    by blast
  have "\<not> length (trailing_events now uid docs) < 5" using assms(1) by simp
  from predictCraving_fields [OF this, of tz] obtain r where
    r: "predictCraving tz now uid (Inr docs) = Inr r"
       "probability r = Some (Math_round (js_mul (clampedProbability tz now ?w) (Num 100)))"
    by blast
  have "probability r = Some (Num (of_int \<lfloor>p * 100 + 1 / 2\<rfloor>))"
    using r(2) p(1) by simp
  then show ?thesis
    using t p r(1) round_percent(2,3) [OF p(2,3)] by blast
qed

theorem predictCraving_probability_range_witness:
  "5 \<le> length (trailing_events peak_now ''u1'' peak_events)
   \<and> list_all (\<lambda>i. loggedAt i < peak_now) (trailing_events peak_now ''u1'' peak_events)
   \<and> (\<exists>p r. clampedProbability 0 peak_now (window_intakes peak_now ''u1'' peak_events) = Num p
        \<and> 0.05 \<le> p \<and> p \<le> 0.95
        \<and> predictCraving 0 peak_now ''u1'' (Inr peak_events) = Inr r
        \<and> probability r = Some (Num (of_int \<lfloor>p * 100 + 1 / 2\<rfloor>))
        \<and> 5 \<le> \<lfloor>p * 100 + 1 / 2\<rfloor> \<and> \<lfloor>p * 100 + 1 / 2\<rfloor> \<le> 95)"
proof -
  have tr: "trailing_events peak_now ''u1'' peak_events = peak_events"
    by (simp add: trailing_events_def peak_events_def peak_now_def MS_PER_DAY_def)
  have h1: "5 \<le> length (trailing_events peak_now ''u1'' peak_events)"
    unfolding tr by (simp add: peak_events_def)
  have h2: "\<forall>i \<in> set (trailing_events peak_now ''u1'' peak_events). loggedAt i < peak_now"
    unfolding tr by (simp add: peak_events_def peak_now_def)
  from predictCraving_probability_range [OF h1 h2, of 0]
  have "\<exists>p r. clampedProbability 0 peak_now (window_intakes peak_now ''u1'' peak_events) = Num p
        \<and> 0.05 \<le> p \<and> p \<le> 0.95
        \<and> predictCraving 0 peak_now ''u1'' (Inr peak_events) = Inr r
        \<and> probability r = Some (Num (of_int \<lfloor>p * 100 + 1 / 2\<rfloor>))
        \<and> 5 \<le> \<lfloor>p * 100 + 1 / 2\<rfloor> \<and> \<lfloor>p * 100 + 1 / 2\<rfloor> \<le> 95"
    by blast
  then show ?thesis using h1 h2 by (simp add: list_all_iff)
qed

text \<open>
  The claim as stated (the returned value lies in \<open>[0.05, 0.95]\<close>) fails: for five events
  at the current hour and day, of one kind, with a rising trend and an overdue gap, every
  factor is 1, the clamped probability is 0.95 and the value returned is 95.
\<close>

theorem predictCraving_probability_counterexample:
  "length (trailing_events peak_now ''u1'' peak_events) = 5
   \<and> map_sum id probability (predictCraving 0 peak_now ''u1'' (Inr peak_events)) = Inr (Some (Num 95))
   \<and> \<not> (0.05 \<le> (95::real) \<and> (95::real) \<le> 0.95)"
proof -
  have n: "length (trailing_events peak_now ''u1'' peak_events) = 5"
    using length_window_intakes [of peak_now "''u1''" peak_events]
    by (simp add: peak_window) (simp add: peak_events_def)
  then have "\<not> length (trailing_events peak_now ''u1'' peak_events) < 5" by simp
  from predictCraving_fields [OF this, of 0] obtain r where
    "predictCraving 0 peak_now ''u1'' (Inr peak_events) = Inr r"
    "probability r = Some (Math_round (js_mul (clampedProbability 0 peak_now peak_events) (Num 100)))"
    unfolding peak_window by blast
  then show ?thesis
    using n by (simp add: peak_probability)
qed

section \<open>The gamification module's helpers\<close>

text \<open>
  Claim C10, as the code has it. \<open>getOrCreateStreak\<close> throws a \<open>ReferenceError\<close> for
  \<open>odId\<close> whatever the user id and the collection. No exported function can enter it, and
  it is not exported. Every exported function other than \<open>getLeaderboard\<close> reaches the
  \<open>Streak\<close> collection only through \<open>getOrCreateStreakFixed\<close> (\<open>checkAchievements\<close> and
  \<open>unlockAchievement\<close> query nothing and work on the record their caller passes).
  \<open>updateStreakOnLog\<close> and \<open>checkAchievements\<close> never throw, and \<open>unlockAchievement\<close>
  never throws a \<open>ReferenceError\<close>.
\<close>

theorem broken_helper_unreachable:
  "getOrCreateStreak coll uid = Inl (ReferenceError ''odId'')
   \<and> (f \<in> set module_exports \<longrightarrow>
        (f, GetOrCreateStreak) \<notin> calls\<^sup>* \<and> (f \<noteq> GetLeaderboard \<longrightarrow> only_through_fixed f))
   \<and> GetOrCreateStreak \<notin> set module_exports
   \<and> (\<exists>r. updateStreakOnLog tz now uid d = Inr r)
   \<and> (\<exists>r. checkAchievements uid s ua = Inr r)
   \<and> unlockAchievement uid aid strk ua \<noteq> Inl (ReferenceError x)"
proof -
  have a: "f \<in> set module_exports \<longrightarrow>
        (f, GetOrCreateStreak) \<notin> calls\<^sup>* \<and> (f \<noteq> GetLeaderboard \<longrightarrow> only_through_fixed f)"
    using broken_unreachable exports_split fixed_helper_only by blast
  have b: "GetOrCreateStreak \<notin> set module_exports"
    by (simp add: module_exports_def)
  have c: "\<exists>r. updateStreakOnLog tz now uid d = Inr r"
    using updateStreakOnLog_result [of tz now uid d] by blast
  have e: "\<exists>r. checkAchievements uid s ua = Inr r"
    unfolding checkAchievements_eq by blast
  have f: "unlockAchievement uid aid strk ua \<noteq> Inl (ReferenceError x)"
    using unlockAchievement_error [of uid aid strk ua "ReferenceError x"] by auto
  show ?thesis using getOrCreateStreak_throws a b c e f by blast
qed

theorem broken_helper_unreachable_witness:
  "UpdateStreakOnLog \<in> set module_exports \<and> UpdateStreakOnLog \<noteq> GetLeaderboard
   \<and> getOrCreateStreak Map.empty ''u1'' = Inl (ReferenceError ''odId'')
   \<and> (UpdateStreakOnLog, GetOrCreateStreak) \<notin> calls\<^sup>*
   \<and> only_through_fixed UpdateStreakOnLog"
  using broken_helper_unreachable [of Map.empty "''u1''" UpdateStreakOnLog]
  by (simp add: module_exports_def)

text \<open>
  The claim as stated (every exported operation reaches streak state only through
  \<open>getOrCreateStreakFixed\<close>) fails for \<open>getLeaderboard\<close>, which is exported, queries
  \<open>Streak.find()\<close> itself and calls no helper.
\<close>

theorem only_through_fixed_counterexample:
  "GetLeaderboard \<in> set module_exports \<and> queries_Streak GetLeaderboard
   \<and> GetOrCreateStreakFixed \<notin> set (callees GetLeaderboard)
   \<and> \<not> only_through_fixed GetLeaderboard"
proof -
  have "(GetLeaderboard, GetLeaderboard) \<in> calls\<^sup>* \<and> queries_Streak GetLeaderboard" by simp
  then have "\<not> only_through_fixed GetLeaderboard"
    unfolding only_through_fixed_def by blast
  then show ?thesis by (simp add: module_exports_def)
qed

end
